theory Spec2Isabelle
  imports Complex_Main
begin

section \<open>JavaScript strings and arrays\<close>

text \<open>
  The runtime (\<^verbatim>\<open>src/app.js\<close>) works on JavaScript strings. They are modelled as
  \<^typ>\<open>string\<close> (lists of characters); the functions below are the string and array
  methods the source calls, with the results the language gives them.
  \<^verbatim>\<open>s.indexOf(m)\<close> and \<^verbatim>\<open>s.lastIndexOf(m)\<close> return \<open>-1\<close> when \<open>m\<close> does not occur:
  that is \<open>None\<close> here.
\<close>

fun indexOf :: "string \<Rightarrow> string \<Rightarrow> nat option" where
  "indexOf [] m = (if m = [] then Some 0 else None)"
| "indexOf (c # cs) m =
     (if take (length m) (c # cs) = m then Some 0
      else map_option Suc (indexOf cs m))"

fun lastIndexOf :: "string \<Rightarrow> string \<Rightarrow> nat option" where
  "lastIndexOf [] m = (if m = [] then Some 0 else None)"
| "lastIndexOf (c # cs) m =
     (case lastIndexOf cs m of
        Some i \<Rightarrow> Some (Suc i)
      | None \<Rightarrow> if take (length m) (c # cs) = m then Some 0 else None)"

definition includes_str :: "string \<Rightarrow> string \<Rightarrow> bool" where
  "includes_str s m = (indexOf s m \<noteq> None)"

definition endsWith :: "string \<Rightarrow> string \<Rightarrow> bool" where
  "endsWith s m = (length m \<le> length s \<and> drop (length s - length m) s = m)"

text \<open>\<^verbatim>\<open>s.split(sep)\<close> for a one-character separator: never the empty array.\<close>

fun split_str :: "char \<Rightarrow> string \<Rightarrow> string list" where
  "split_str sep [] = [[]]"
| "split_str sep (c # cs) =
     (if c = sep then [] # split_str sep cs
      else (case split_str sep cs of
              [] \<Rightarrow> [[c]]
            | p # ps \<Rightarrow> (c # p) # ps))"

fun join :: "string \<Rightarrow> string list \<Rightarrow> string" where
  "join sep [] = []"
| "join sep [p] = p"
| "join sep (p # q # ps) = p @ sep @ join sep (q # ps)"

text \<open>\<^verbatim>\<open>parts.indexOf(x)\<close> on an array.\<close>

fun arrayIndexOf :: "'a list \<Rightarrow> 'a \<Rightarrow> nat option" where
  "arrayIndexOf [] x = None"
| "arrayIndexOf (y # ys) x = (if y = x then Some 0 else map_option Suc (arrayIndexOf ys x))"

text \<open>
  \<^verbatim>\<open>s.toLowerCase()\<close> follows the Unicode case mappings and is a parameter of the
  model (a field of \<open>engine\<close> below). On a string of ASCII characters it is
  \<open>asciiToLowerCase\<close>: the letters \<open>A\<close> to \<open>Z\<close> become \<open>a\<close> to \<open>z\<close>. The examples,
  whose names are ASCII, are evaluated with it.
\<close>

definition lowerChar :: "char \<Rightarrow> char" where
  "lowerChar c =
     (case map_of (zip ''ABCDEFGHIJKLMNOPQRSTUVWXYZ'' ''abcdefghijklmnopqrstuvwxyz'') c of
        Some l \<Rightarrow> l
      | None \<Rightarrow> c)"

definition asciiToLowerCase :: "string \<Rightarrow> string" where
  "asciiToLowerCase s = map lowerChar s"

text \<open>The decimal text of a counter, as the template literal \<^verbatim>\<open>`${idx}`\<close> prints it.\<close>

definition digitChar :: "nat \<Rightarrow> char" where
  "digitChar d = ''0123456789'' ! d"

fun numberToString :: "nat \<Rightarrow> string" where
  "numberToString n =
     (if n < 10 then [digitChar n] else numberToString (n div 10) @ [digitChar (n mod 10)])"

declare numberToString.simps [simp del]

text \<open>
  \<^verbatim>\<open>/^[0-9]+$/.test(token)\<close> is \<open>allDigits\<close>. \<^verbatim>\<open>parseInt(token, 10)\<close> on such a token
  is the double nearest to the decimal value (infinite for a very long token) and is a
  parameter of the model too. Below \<open>2^53\<close> it is the decimal value itself,
  \<open>decimalValue\<close>, which the examples are evaluated with.
\<close>

definition isDigit :: "char \<Rightarrow> bool" where
  "isDigit c = (c \<in> set ''0123456789'')"

definition allDigits :: "string \<Rightarrow> bool" where
  "allDigits token = (token \<noteq> [] \<and> list_all isDigit token)"

definition digitValue :: "char \<Rightarrow> nat" where
  "digitValue c = (case arrayIndexOf ''0123456789'' c of Some d \<Rightarrow> d | None \<Rightarrow> 0)"

definition decimalValue :: "string \<Rightarrow> nat" where
  "decimalValue token = foldl (\<lambda>acc c. 10 * acc + digitValue c) 0 token"

text \<open>\<^verbatim>\<open>s || d\<close> on strings: the empty string is falsy.\<close>

definition orString :: "string \<Rightarrow> string \<Rightarrow> string" where
  "orString s d = (if s \<noteq> [] then s else d)"

text \<open>
  \<^verbatim>\<open>x || d\<close> on an optional number: \<open>undefined\<close> and \<open>0\<close> are falsy. Numbers are
  modelled as reals, so \<open>NaN\<close> (also falsy) has no counterpart.
\<close>

definition orNumber :: "real option \<Rightarrow> real \<Rightarrow> real" where
  "orNumber x d = (case x of Some v \<Rightarrow> if v \<noteq> 0 then v else d | None \<Rightarrow> d)"

text \<open>\<^verbatim>\<open>array.find(pred)\<close>, as the position of the first element that satisfies \<open>pred\<close>.\<close>

fun findIndex :: "('a \<Rightarrow> bool) \<Rightarrow> 'a list \<Rightarrow> nat option" where
  "findIndex pred [] = None"
| "findIndex pred (x # xs) = (if pred x then Some 0 else map_option Suc (findIndex pred xs))"

section \<open>Path normalizer\<close>

text \<open>
  \<^verbatim>\<open>toRelativeAssetPath(storagePath)\<close>, lines 901 to 921. Steps 3 and 4 of the source
  (the file name, then the sanitized path) are \<open>filenameFallback\<close>; the source reaches
  them from three places (no \<open>projects\<close> segment, too few segments after it, empty join).
\<close>

definition sanitizePath :: "string \<Rightarrow> string" where
  "sanitizePath pathStr =
     join ''_'' (split_str (CHR 0x5C) (join ''_'' (split_str CHR ''/'' pathStr)))"

definition filenameFallback :: "string \<Rightarrow> string list \<Rightarrow> string" where
  "filenameFallback pathStr parts =
     (let filename = last parts in
      if filename \<noteq> [] then filename else sanitizePath pathStr)"

definition toRelativeAssetPath :: "string \<Rightarrow> string" where
  "toRelativeAssetPath pathStr =
     (let assetsMarker = ''/assets/'' in
      case indexOf pathStr assetsMarker of
        Some idx \<Rightarrow> drop (idx + length assetsMarker) pathStr
      | None \<Rightarrow>
          (let parts = split_str CHR ''/'' pathStr in
           case arrayIndexOf parts ''projects'' of
             Some projIdx \<Rightarrow>
               if length parts > projIdx + 2
               then (let after = join ''/'' (drop (projIdx + 2) parts) in
                     if after \<noteq> [] then after else filenameFallback pathStr parts)
               else filenameFallback pathStr parts
           | None \<Rightarrow> filenameFallback pathStr parts))"

section \<open>Scene graph and runtime objects\<close>

text \<open>
  The parsed \<^verbatim>\<open>scene.json\<close>. An optional field is an \<open>option\<close>; \<open>node_name\<close> is the
  empty string when the field is absent (the source only tests it for truthiness).
\<close>

type_synonym vec3 = "real \<times> real \<times> real"

record transform =
  position :: vec3
  rotation :: "vec3 option"
  scaling :: "vec3 option"

record cameraProps =
  camType :: "string option"
  alpha :: "real option"
  beta :: "real option"
  radius :: "real option"
  target :: "vec3 option"
  lowerRadiusLimit :: "real option"
  upperRadiusLimit :: "real option"
  minZ :: "real option"
  maxZ :: "real option"
  active :: bool

record lightProps =
  lightType :: "string option"
  intensity :: "real option"

record node =
  node_id :: string
  node_name :: string
  node_kind :: string
  node_parentId :: "string option"
  node_transform :: transform
  node_visible :: "bool option"
  node_enabled :: "bool option"
  node_src :: "string option"
  node_camera :: "cameraProps option"
  node_light :: "lightProps option"

text \<open>
  Objects of the rendering engine, with the properties the source reads or writes.
  \<open>instanceOfMesh\<close> is the test \<^verbatim>\<open>m instanceof BABYLON.Mesh\<close>; \<open>isDisposed\<close> is set by
  \<^verbatim>\<open>mesh.dispose()\<close>; \<open>mesh_parent\<close> is the id of the transform node the mesh hangs from.
\<close>

datatype quaternion = FromEulerAngles real real real | AssetQuaternion real real real real

record metadata =
  stableId :: "string option"

record mesh =
  mesh_name :: string
  uniqueId :: nat
  instanceOfMesh :: bool
  mesh_metadata :: "metadata option"
  mesh_parent :: "string option"
  mesh_position :: vec3
  mesh_rotation :: vec3
  rotationQuaternion :: "quaternion option"
  mesh_scaling :: vec3
  visibility :: real
  isDisposed :: bool

datatype cameraBody =
    UniversalCamera (cb_id: string) (cb_position: vec3) (cb_rotation: vec3)
  | ArcRotateCamera (cb_id: string) (cb_alpha: real) (cb_beta: real) (cb_radius: real)
      (cb_target: vec3) (cb_lowerRadiusLimit: "real option") (cb_upperRadiusLimit: "real option")

record camera =
  cam_body :: cameraBody
  cam_minZ :: real
  cam_maxZ :: real
  cam_enabled :: bool

record light =
  light_id :: string
  light_class :: string
  light_intensity :: real
  light_enabled :: bool

record transformNode =
  tn_id :: string
  tn_position :: vec3
  tn_rotation :: vec3
  tn_scaling :: vec3

record scene =
  meshes :: "mesh list"
  cameras :: "camera list"
  activeCamera :: "camera option"
  lights :: "light list"
  transformNodes :: "transformNode list"

record texture =
  tex_url :: "string option"
  tex_name :: string
  coordinatesIndex :: "nat option"
  uOffset :: "real option"
  vOffset :: "real option"
  uScale :: "real option"
  vScale :: "real option"
  uAng :: "real option"
  vAng :: "real option"
  wAng :: "real option"
  wrapU :: "nat option"
  wrapV :: "nat option"

text \<open>
  What the engine and the language runtime provide is not part of the repository: the
  asset loader (\<open>None\<close> is a rejected load), the two primitive builders, the texture
  constructor, \<^verbatim>\<open>String.prototype.toLowerCase\<close> and \<^verbatim>\<open>parseInt(token, 10)\<close> on an
  all-digit token (\<open>None\<close> when the result is infinite, which equals no handle) are
  parameters. Nothing is assumed about them.
\<close>

record engine =
  LoadAssetContainerAsync :: "string \<Rightarrow> string \<Rightarrow> mesh list option"
  CreateBox :: "string \<Rightarrow> mesh"
  CreateGround :: "string \<Rightarrow> mesh"
  newTexture :: "string \<Rightarrow> texture"
  toLowerCase :: "string \<Rightarrow> string"
  parseInt :: "string \<Rightarrow> nat option"

section \<open>Cameras and lights\<close>

text \<open>
  The \<^verbatim>\<open>camera\<close> case of \<^verbatim>\<open>instantiateNode\<close>, lines 222 to 264. \<open>Math.PI\<close> is
  \<^term>\<open>pi\<close> and \<^verbatim>\<open>position.length()\<close> the Euclidean norm.
\<close>

definition defaultCameraProps :: cameraProps where
  "defaultCameraProps =
     \<lparr>camType = Some ''ArcRotate'', alpha = None, beta = None, radius = None, target = None,
      lowerRadiusLimit = None, upperRadiusLimit = None, minZ = Some 0.1, maxZ = Some 100,
      active = False\<rparr>"

definition cameraPropsOf :: "node \<Rightarrow> cameraProps" where
  "cameraPropsOf node = (case node_camera node of Some c \<Rightarrow> c | None \<Rightarrow> defaultCameraProps)"

definition vecLength :: "vec3 \<Rightarrow> real" where
  "vecLength v = (case v of (x, y, z) \<Rightarrow> sqrt (x * x + y * y + z * z))"

definition nodePosition :: "node \<Rightarrow> vec3" where
  "nodePosition node = position (node_transform node)"

definition nodeRotation :: "node \<Rightarrow> vec3" where
  "nodeRotation node = (case rotation (node_transform node) of Some r \<Rightarrow> r | None \<Rightarrow> (0, 0, 0))"

definition nodeScaling :: "node \<Rightarrow> vec3" where
  "nodeScaling node = (case scaling (node_transform node) of Some s \<Rightarrow> s | None \<Rightarrow> (1, 1, 1))"

definition createCamera :: "node \<Rightarrow> camera" where
  "createCamera node =
     (let cameraProps = cameraPropsOf node;
          body =
            (if camType cameraProps = Some ''Universal''
             then UniversalCamera (node_id node) (nodePosition node) (nodeRotation node)
             else
               (let a = orNumber (alpha cameraProps) (- pi / 2);
                    b = orNumber (beta cameraProps) (pi / 2.5);
                    r = orNumber (Some (orNumber (radius cameraProps) (vecLength (nodePosition node)))) 15;
                    t = (case target cameraProps of Some v \<Rightarrow> v | None \<Rightarrow> (0, 0, 0))
                in ArcRotateCamera (node_id node) a b r t
                     (lowerRadiusLimit cameraProps) (upperRadiusLimit cameraProps)))
      in \<lparr>cam_body = body,
          cam_minZ = (case minZ cameraProps of Some z \<Rightarrow> z | None \<Rightarrow> 0.1),
          cam_maxZ = (case maxZ cameraProps of Some z \<Rightarrow> z | None \<Rightarrow> 100),
          cam_enabled = (node_enabled node \<noteq> Some False)\<rparr>)"

text \<open>
  The \<^verbatim>\<open>light\<close> case, lines 266 to 348: which light class is built, its intensity and
  its enabled state. Direction, colour, range and cone are engine values no property
  below depends on and are left out.
\<close>

definition createLight :: "node \<Rightarrow> light" where
  "createLight node =
     (let ty = (case node_light node of Some lp \<Rightarrow> lightType lp | None \<Rightarrow> Some ''Hemispheric'');
          inten = (case node_light node of Some lp \<Rightarrow> intensity lp | None \<Rightarrow> Some 0.7)
      in \<lparr>light_id = node_id node,
          light_class =
            (if ty = Some ''Point'' then ''PointLight''
             else if ty = Some ''Spot'' then ''SpotLight''
             else if ty = Some ''Directional'' then ''DirectionalLight''
             else ''HemisphericLight''),
          light_intensity = (case inten of Some i \<Rightarrow> i | None \<Rightarrow> 0.7),
          light_enabled = (node_enabled node \<noteq> Some False)\<rparr>)"

section \<open>Identity resolver\<close>

text \<open>
  The block of \<^verbatim>\<open>loadModelFromAssets\<close> that stamps runtime meshes, lines 474 to 540.
  \<open>sgIndex\<close> and \<open>nameCounts\<close> are the two \<^verbatim>\<open>Map\<close>s of the source.
\<close>

definition MESH_TAG :: string where
  "MESH_TAG = ''::mesh::''"

definition getChildTokenFromId :: "string \<Rightarrow> string option" where
  "getChildTokenFromId ident =
     (case lastIndexOf ident MESH_TAG of
        Some i \<Rightarrow> Some (drop (i + length MESH_TAG) ident)
      | None \<Rightarrow> None)"

definition childToken :: "node \<Rightarrow> string" where
  "childToken cn = (case getChildTokenFromId (node_id cn) of Some t \<Rightarrow> orString t [] | None \<Rightarrow> [])"

definition childKeyName :: "engine \<Rightarrow> node \<Rightarrow> string" where
  "childKeyName eng cn = toLowerCase eng (orString (node_name cn) ''Mesh'')"

definition meshKeyName :: "engine \<Rightarrow> mesh \<Rightarrow> string" where
  "meshKeyName eng m = toLowerCase eng (orString (mesh_name m) ''Mesh'')"

fun buildSgIndex ::
  "engine \<Rightarrow> node list \<Rightarrow> (string \<rightharpoonup> nat) \<Rightarrow> (string \<rightharpoonup> node \<times> string) \<Rightarrow> (string \<rightharpoonup> node \<times> string)" where
  "buildSgIndex eng [] nameCounts sgIndex = sgIndex"
| "buildSgIndex eng (cn # rest) nameCounts sgIndex =
     (let nm = childKeyName eng cn;
          idx = (case nameCounts nm of Some i \<Rightarrow> i | None \<Rightarrow> 0);
          token = childToken cn;
          key = nm @ ''::'' @ numberToString idx
      in buildSgIndex eng rest (nameCounts(nm \<mapsto> idx + 1)) (sgIndex(key \<mapsto> (cn, token))))"

definition ensureMetadata :: "mesh \<Rightarrow> mesh" where
  "ensureMetadata m =
     (case mesh_metadata m of
        None \<Rightarrow> m\<lparr>mesh_metadata := Some \<lparr>stableId = None\<rparr>\<rparr>
      | Some md \<Rightarrow> m)"

definition setStableId :: "string \<Rightarrow> mesh \<Rightarrow> mesh" where
  "setStableId token m =
     (case mesh_metadata m of
        None \<Rightarrow> m\<lparr>mesh_metadata := Some \<lparr>stableId = Some token\<rparr>\<rparr>
      | Some md \<Rightarrow> m\<lparr>mesh_metadata := Some (md\<lparr>stableId := Some token\<rparr>)\<rparr>)"

text \<open>The two branches of the loop body: a saved entry was found, or none was.\<close>

definition stampMesh :: "node \<Rightarrow> string \<Rightarrow> bool \<Rightarrow> bool \<Rightarrow> mesh \<Rightarrow> mesh" where
  "stampMesh childNode token parentVisible parentEnabled m =
     (let childVisible = (node_visible childNode \<noteq> Some False);
          childEnabled = (node_enabled childNode \<noteq> Some False);
          effectiveVisible = (childVisible \<and> childEnabled \<and> parentVisible \<and> parentEnabled)
      in (setStableId token (ensureMetadata m))\<lparr>visibility := (if effectiveVisible then 1 else 0)\<rparr>)"

definition disposeMesh :: "mesh \<Rightarrow> mesh" where
  "disposeMesh m = (ensureMetadata m)\<lparr>isDisposed := True\<rparr>"

text \<open>
  The loop over \<open>actualMeshes\<close>. The source mutates the mesh objects in place; the first
  component of the result is the state of each of them after the loop, in order, the
  second is \<open>meshesToKeep\<close>.
\<close>

fun walkRuntimeMeshes ::
  "engine \<Rightarrow> (string \<rightharpoonup> node \<times> string) \<Rightarrow> bool \<Rightarrow> bool \<Rightarrow> mesh list \<Rightarrow> (string \<rightharpoonup> nat) \<Rightarrow> mesh list
     \<Rightarrow> mesh list \<times> mesh list" where
  "walkRuntimeMeshes eng sgIndex parentVisible parentEnabled [] nameCounts meshesToKeep =
     ([], meshesToKeep)"
| "walkRuntimeMeshes eng sgIndex parentVisible parentEnabled (m # rest) nameCounts meshesToKeep =
     (let nm = meshKeyName eng m;
          idx = (case nameCounts nm of Some i \<Rightarrow> i | None \<Rightarrow> 0);
          nameCounts' = nameCounts(nm \<mapsto> idx + 1);
          key = nm @ ''::'' @ numberToString idx
      in case sgIndex key of
           Some (childNode, token) \<Rightarrow>
             (let m' = stampMesh childNode token parentVisible parentEnabled m;
                  (after, kept) = walkRuntimeMeshes eng sgIndex parentVisible parentEnabled rest
                                    nameCounts' (meshesToKeep @ [m'])
              in (m' # after, kept))
         | None \<Rightarrow>
             (let m' = disposeMesh m;
                  (after, kept) = walkRuntimeMeshes eng sgIndex parentVisible parentEnabled rest
                                    nameCounts' meshesToKeep
              in (m' # after, kept)))"

definition childNodesOf :: "node list \<Rightarrow> node \<Rightarrow> node list" where
  "childNodesOf graph node =
     filter (\<lambda>n. node_parentId n = Some (node_id node) \<and> node_kind n = ''mesh'') graph"

definition actualMeshesOf :: "mesh list \<Rightarrow> mesh list" where
  "actualMeshesOf ms = filter (\<lambda>m. mesh_name m \<noteq> ''__root__'') (filter instanceOfMesh ms)"

definition resolveIdentities :: "engine \<Rightarrow> node list \<Rightarrow> node \<Rightarrow> mesh list \<Rightarrow> mesh list \<times> mesh list" where
  "resolveIdentities eng graph node resultMeshes =
     (let parentVisible = (node_visible node \<noteq> Some False);
          parentEnabled = (node_enabled node \<noteq> Some False);
          childNodes = childNodesOf graph node;
          sgIndex = buildSgIndex eng childNodes Map.empty Map.empty
      in walkRuntimeMeshes eng sgIndex parentVisible parentEnabled (actualMeshesOf resultMeshes)
           Map.empty [])"

text \<open>
  \<^verbatim>\<open>loadModelFromAssets(node, scene)\<close>, lines 432 to 559; \<open>graph\<close> is the node list of
  \<^verbatim>\<open>EXPORTED_SCENE_GRAPH\<close>. A rejected load is caught and leaves the scene as it was.
  \<^verbatim>\<open>addAllToScene()\<close> adds the container's (replaced) mesh array to the scene.
  \<open>loadContainerFor\<close> is the call of the loader, lines 437 to 451.
\<close>

definition loadContainerFor :: "engine \<Rightarrow> string \<Rightarrow> mesh list option" where
  "loadContainerFor eng src =
     (let assetPath = ''assets/'' @ toRelativeAssetPath src;
          lower = toLowerCase eng assetPath
      in if endsWith lower ''.gltf''
         then (let cut = (case lastIndexOf assetPath ''/'' of Some i \<Rightarrow> i + 1 | None \<Rightarrow> 0)
               in LoadAssetContainerAsync eng (take cut assetPath) (drop cut assetPath))
         else LoadAssetContainerAsync eng [] assetPath)"

definition loadModelFromAssets :: "engine \<Rightarrow> node list \<Rightarrow> node \<Rightarrow> scene \<Rightarrow> scene" where
  "loadModelFromAssets eng graph node sc =
     (case node_src node of
        None \<Rightarrow> sc
      | Some src \<Rightarrow>
          if src = [] then sc
          else
            (case loadContainerFor eng src of
               None \<Rightarrow> sc
             | Some loaded \<Rightarrow>
                 if length loaded > 0
                 then
                   (let parentNode =
                          \<lparr>tn_id = node_id node, tn_position = nodePosition node,
                           tn_rotation = nodeRotation node, tn_scaling = nodeScaling node\<rparr>;
                        parented = map (\<lambda>m. m\<lparr>mesh_parent := Some (node_id node)\<rparr>) loaded;
                        meshesToKeep = snd (resolveIdentities eng graph node parented)
                    in sc\<lparr>meshes := meshes sc @ meshesToKeep,
                          transformNodes := transformNodes sc @ [parentNode]\<rparr>)
                 else sc))"

section \<open>Node instantiator\<close>

text \<open>
  The \<^verbatim>\<open>mesh\<close> case of \<^verbatim>\<open>instantiateNode\<close>, lines 350 to 419. \<open>findChildMesh\<close> is the
  lookup of lines 364 to 371: first by stable id, then, for an all-digit token and only
  when the first search found nothing, by the numeric \<open>uniqueId\<close>.
\<close>

definition hasParentId :: "node \<Rightarrow> bool" where
  "hasParentId node = (case node_parentId node of Some p \<Rightarrow> p \<noteq> [] | None \<Rightarrow> False)"

definition isChildMeshId :: "node \<Rightarrow> bool" where
  "isChildMeshId node = (includes_str (node_id node) ''::mesh::'' \<and> hasParentId node)"

definition hasStableId :: "string \<Rightarrow> mesh \<Rightarrow> bool" where
  "hasStableId token m =
     (case mesh_metadata m of Some md \<Rightarrow> stableId md = Some token | None \<Rightarrow> False)"

definition legacyFallback :: "engine \<Rightarrow> string \<Rightarrow> mesh list \<Rightarrow> nat option" where
  "legacyFallback eng token ms =
     (if allDigits token
      then (case parseInt eng token of
              Some uniq \<Rightarrow> findIndex (\<lambda>m. uniqueId m = uniq) ms
            | None \<Rightarrow> None)
      else None)"

definition findChildMesh :: "engine \<Rightarrow> string \<Rightarrow> mesh list \<Rightarrow> nat option" where
  "findChildMesh eng token ms =
     (case findIndex (hasStableId token) ms of
        Some i \<Rightarrow> Some i
      | None \<Rightarrow> legacyFallback eng token ms)"

definition applyChildTransform :: "node \<Rightarrow> mesh \<Rightarrow> mesh" where
  "applyChildTransform node m =
     (let m1 = m\<lparr>mesh_position := nodePosition node\<rparr>;
          m2 = (if rotationQuaternion m1 \<noteq> None
                then (case nodeRotation node of
                        (x, y, z) \<Rightarrow> m1\<lparr>rotationQuaternion := Some (FromEulerAngles x y z)\<rparr>)
                else m1\<lparr>mesh_rotation := nodeRotation node\<rparr>)
      in m2\<lparr>mesh_scaling := nodeScaling node\<rparr>)"

definition placePrimitive :: "node \<Rightarrow> mesh \<Rightarrow> mesh" where
  "placePrimitive node m =
     m\<lparr>mesh_position := nodePosition node, mesh_rotation := nodeRotation node,
       mesh_scaling := nodeScaling node\<rparr>"

text \<open>Lines 412 to 418, run for every mesh the \<^verbatim>\<open>mesh\<close> case found or built.\<close>

definition applyNodeVisibility :: "node \<Rightarrow> mesh \<Rightarrow> mesh" where
  "applyNodeVisibility node m =
     (let visible = (node_visible node \<noteq> Some False);
          enabled = (node_enabled node \<noteq> Some False)
      in m\<lparr>visibility := (if visible \<and> enabled then 1 else 0)\<rparr>)"

definition instantiateMesh :: "engine \<Rightarrow> node \<Rightarrow> scene \<Rightarrow> scene" where
  "instantiateMesh eng node sc =
     (if isChildMeshId node
      then
        (case getChildTokenFromId (node_id node) of
           None \<Rightarrow> sc
         | Some token \<Rightarrow>
             if token = [] then sc
             else
               (case findChildMesh eng token (meshes sc) of
                  Some i \<Rightarrow>
                    sc\<lparr>meshes := (meshes sc)
                         [i := applyNodeVisibility node (applyChildTransform node (meshes sc ! i))]\<rparr>
                | None \<Rightarrow> sc))
      else if node_id node = ''defaultCube''
      then sc\<lparr>meshes := meshes sc @
                 [applyNodeVisibility node (placePrimitive node (CreateBox eng (node_id node)))]\<rparr>
      else if node_id node = ''ground''
      then sc\<lparr>meshes := meshes sc @
                 [applyNodeVisibility node (placePrimitive node (CreateGround eng (node_id node)))]\<rparr>
      else sc)"

definition instantiateNode :: "engine \<Rightarrow> node list \<Rightarrow> node \<Rightarrow> scene \<Rightarrow> scene" where
  "instantiateNode eng graph node sc =
     (if node_kind node = ''camera''
      then (let cam = createCamera node
            in sc\<lparr>cameras := cameras sc @ [cam],
                  activeCamera := (if active (cameraPropsOf node) then Some cam else activeCamera sc)\<rparr>)
      else if node_kind node = ''light''
      then sc\<lparr>lights := lights sc @ [createLight node]\<rparr>
      else if node_kind node = ''mesh''
      then instantiateMesh eng node sc
      else if node_kind node = ''model''
      then (case node_src node of
              Some src \<Rightarrow> if src \<noteq> [] then loadModelFromAssets eng graph node sc else sc
            | None \<Rightarrow> sc)
      else sc)"

text \<open>\<^verbatim>\<open>instantiateGraph(graph, scene)\<close>, lines 190 to 213: the two passes.\<close>

definition isDeferredChild :: "node \<Rightarrow> bool" where
  "isDeferredChild node = (node_kind node = ''mesh'' \<and> isChildMeshId node)"

fun firstPass :: "engine \<Rightarrow> node list \<Rightarrow> node list \<Rightarrow> scene \<Rightarrow> node list \<Rightarrow> scene \<times> node list" where
  "firstPass eng graph [] sc childMeshNodes = (sc, childMeshNodes)"
| "firstPass eng graph (node # rest) sc childMeshNodes =
     (if isDeferredChild node
      then firstPass eng graph rest sc (childMeshNodes @ [node])
      else firstPass eng graph rest (instantiateNode eng graph node sc) childMeshNodes)"

fun secondPass :: "engine \<Rightarrow> node list \<Rightarrow> node list \<Rightarrow> scene \<Rightarrow> scene" where
  "secondPass eng graph [] sc = sc"
| "secondPass eng graph (node # rest) sc =
     secondPass eng graph rest (instantiateNode eng graph node sc)"

definition instantiateGraph :: "engine \<Rightarrow> node list \<Rightarrow> scene \<Rightarrow> scene" where
  "instantiateGraph eng graph sc =
     (case firstPass eng graph graph sc [] of
        (sc1, childMeshNodes) \<Rightarrow> secondPass eng graph childMeshNodes sc1)"

section \<open>Material overrides\<close>


text \<open>
  The pattern \<^verbatim>\<open>/^[a-f0-9-]{36}_(.+)$/i\<close>: 36 characters that are hexadecimal digits of
  either case or hyphens, an underscore, then at least one character, none of them a line
  terminator (\<open>.\<close> does not match one and \<open>$\<close> is the end of the input). The result is
  the group.
\<close>

definition isUuidChar :: "char \<Rightarrow> bool" where
  "isUuidChar c = (c \<in> set ''0123456789abcdefABCDEF-'')"

definition isLineTerminator :: "char \<Rightarrow> bool" where
  "isLineTerminator c = (c = CHR 0x0A \<or> c = CHR 0x0D)"

definition matchUuidPrefix :: "string \<Rightarrow> string option" where
  "matchUuidPrefix clean =
     (if list_all isUuidChar (take 36 clean) \<and> length (take 36 clean) = 36
         \<and> take 1 (drop 36 clean) = ''_''
         \<and> drop 37 clean \<noteq> [] \<and> list_all (\<lambda>c. \<not> isLineTerminator c) (drop 37 clean)
      then Some (drop 37 clean)
      else None)"

definition firstPart :: "char \<Rightarrow> string \<Rightarrow> string" where
  "firstPart sep s = (case split_str sep s of [] \<Rightarrow> [] | p # ps \<Rightarrow> p)"

definition getFilenameFromUrl :: "string \<Rightarrow> string" where
  "getFilenameFromUrl url =
     (if url = [] then []
      else
        (let lastPart = orString (last (split_str CHR ''/'' url)) [];
             clean = firstPart CHR ''#'' (firstPart CHR ''?'' lastPart)
         in case matchUuidPrefix clean of Some g \<Rightarrow> g | None \<Rightarrow> clean))"

text \<open>
  \<^verbatim>\<open>loadTextureFromAssetPath\<close>, lines 73 to 92: \<open>null\<close> for an empty path, otherwise a
  texture for the URL under \<^verbatim>\<open>assets/\<close>, named by the last segment of that URL.
\<close>

definition loadTextureFromAssetPath :: "engine \<Rightarrow> string \<Rightarrow> texture option" where
  "loadTextureFromAssetPath eng assetStoragePath =
     (if assetStoragePath = [] then None
      else
        (let rel = toRelativeAssetPath assetStoragePath;
             url = ''assets/'' @ rel;
             tex = newTexture eng url;
             parts2 = split_str CHR ''/'' url
         in Some (tex\<lparr>tex_name := last parts2\<rparr>)))"

text \<open>
  The texture branch of \<^verbatim>\<open>applyMaterialOverrides\<close>, lines 802 to 871, for one property
  with a string value. A material is its name and its texture slots (an empty slot is
  \<open>None\<close>). The second component of the result is which of the three messages of the
  branch was logged: the original was kept, the texture was applied, or the load failed.
\<close>

record material =
  mat_name :: string
  slots :: "string \<rightharpoonup> texture"

datatype overrideLog = KeptOriginal | AppliedTexture | LoadFailure

text \<open>
  Lines 832 to 850: each property the original texture carries is assigned to the new
  texture; a property the original does not carry (\<open>None\<close>: the \<^verbatim>\<open>in\<close> test fails, or
  \<open>coordinatesIndex\<close> is not a number) leaves the new texture's own value.
\<close>

definition copyIfPresent :: "'a option \<Rightarrow> 'a option \<Rightarrow> 'a option" where
  "copyIfPresent original own = (case original of Some v \<Rightarrow> Some v | None \<Rightarrow> own)"

definition copyUVProperties :: "texture \<Rightarrow> texture \<Rightarrow> texture" where
  "copyUVProperties originalTexture tex =
     tex\<lparr>coordinatesIndex := copyIfPresent (coordinatesIndex originalTexture) (coordinatesIndex tex),
         uOffset := copyIfPresent (uOffset originalTexture) (uOffset tex),
         vOffset := copyIfPresent (vOffset originalTexture) (vOffset tex),
         uScale := copyIfPresent (uScale originalTexture) (uScale tex),
         vScale := copyIfPresent (vScale originalTexture) (vScale tex),
         uAng := copyIfPresent (uAng originalTexture) (uAng tex),
         vAng := copyIfPresent (vAng originalTexture) (vAng tex),
         wAng := copyIfPresent (wAng originalTexture) (wAng tex),
         wrapU := copyIfPresent (wrapU originalTexture) (wrapU tex),
         wrapV := copyIfPresent (wrapV originalTexture) (wrapV tex)\<rparr>"

definition defaultUVChannel :: "string \<Rightarrow> texture \<Rightarrow> texture" where
  "defaultUVChannel property tex =
     (if property = ''ambientTexture'' \<or> property = ''lightmapTexture''
      then tex\<lparr>coordinatesIndex := Some 1\<rparr>
      else tex\<lparr>coordinatesIndex := Some 0\<rparr>)"

definition currentPathOf :: "texture option \<Rightarrow> string" where
  "currentPathOf originalTexture =
     (case originalTexture of
        Some t \<Rightarrow> orString (case tex_url t of Some u \<Rightarrow> u | None \<Rightarrow> []) (orString (tex_name t) [])
      | None \<Rightarrow> [])"

definition isEmbeddedTexture :: "texture option \<Rightarrow> bool" where
  "isEmbeddedTexture originalTexture =
     (case originalTexture of
        Some t \<Rightarrow> (case tex_url t of Some u \<Rightarrow> u \<noteq> [] \<and> includes_str u ''#'' | None \<Rightarrow> False)
      | None \<Rightarrow> False)"

definition shouldApplyOverride :: "texture option \<Rightarrow> string \<Rightarrow> bool" where
  "shouldApplyOverride originalTexture val =
     (let currentFile = getFilenameFromUrl (currentPathOf originalTexture);
          overrideFile = getFilenameFromUrl val;
          isEmbedded = isEmbeddedTexture originalTexture
      in originalTexture = None \<or> isEmbedded \<or> (currentFile \<noteq> overrideFile \<and> overrideFile \<noteq> []))"

definition applyTextureOverride ::
  "engine \<Rightarrow> material \<Rightarrow> string \<Rightarrow> string \<Rightarrow> material \<times> overrideLog" where
  "applyTextureOverride eng mat property val =
     (let originalTexture = slots mat property
      in if \<not> shouldApplyOverride originalTexture val then (mat, KeptOriginal)
         else
           (case loadTextureFromAssetPath eng val of
              Some tex \<Rightarrow>
                (let tex' = (case originalTexture of
                               Some orig \<Rightarrow> copyUVProperties orig tex
                             | None \<Rightarrow> defaultUVChannel property tex)
                 in (mat\<lparr>slots := (slots mat)(property \<mapsto> tex')\<rparr>, AppliedTexture))
            | None \<Rightarrow> (mat, LoadFailure)))"

section \<open>Fog mode\<close>

text \<open>
  The engine's constants \<^verbatim>\<open>BABYLON.Scene.FOGMODE_*\<close> and the conditional chain of
  \<^verbatim>\<open>applySceneSettings\<close>, lines 651 to 657. \<open>env.fogMode\<close> is a string or absent.
\<close>

datatype fogMode = FOGMODE_NONE | FOGMODE_EXP | FOGMODE_EXP2 | FOGMODE_LINEAR

definition fogModeOf :: "string option \<Rightarrow> fogMode" where
  "fogModeOf fm =
     (if fm = Some ''linear'' then FOGMODE_LINEAR
      else if fm = Some ''exp'' then FOGMODE_EXP
      else if fm = Some ''exp2'' then FOGMODE_EXP2
      else FOGMODE_NONE)"

section \<open>Occurrence keys, as the specification words them\<close>

text \<open>
  The specification keys the \<open>i\<close>-th name of a sequence by the name, \<open>::\<close> and the number
  of earlier entries with the same name. These two definitions follow those words; the
  loops above compute their keys with a running \<open>nameCounts\<close> map instead, and
  \<open>keysFrom\<close> is that computation on its own, for the proofs.
\<close>

definition spec_occurrenceIndex :: "string list \<Rightarrow> nat \<Rightarrow> nat" where
  "spec_occurrenceIndex names i = length (filter (\<lambda>x. x = names ! i) (take i names))"

definition spec_key :: "string list \<Rightarrow> nat \<Rightarrow> string" where
  "spec_key names i = names ! i @ ''::'' @ numberToString (spec_occurrenceIndex names i)"

fun keysFrom :: "(string \<rightharpoonup> nat) \<Rightarrow> string list \<Rightarrow> string list" where
  "keysFrom nameCounts [] = []"
| "keysFrom nameCounts (nm # rest) =
     (let idx = (case nameCounts nm of Some i \<Rightarrow> i | None \<Rightarrow> 0)
      in (nm @ ''::'' @ numberToString idx) # keysFrom (nameCounts(nm \<mapsto> idx + 1)) rest)"

definition outcomeOf :: "(string \<rightharpoonup> node \<times> string) \<Rightarrow> bool \<Rightarrow> bool \<Rightarrow> string \<Rightarrow> mesh \<Rightarrow> mesh" where
  "outcomeOf sgIndex parentVisible parentEnabled key m =
     (case sgIndex key of
        Some (childNode, token) \<Rightarrow> stampMesh childNode token parentVisible parentEnabled m
      | None \<Rightarrow> disposeMesh m)"

text \<open>
  Three notions of the proofs: the count a \<open>nameCounts\<close> map holds for a name, one
  \<^verbatim>\<open>sgIndex.set\<close> of the first loop, and the positions whose key has a saved entry.
\<close>

definition count0 :: "(string \<rightharpoonup> nat) \<Rightarrow> string \<Rightarrow> nat" where
  "count0 cnt nm = (case cnt nm of Some i \<Rightarrow> i | None \<Rightarrow> 0)"

definition putEntry :: "string \<times> node \<Rightarrow> (string \<rightharpoonup> node \<times> string) \<Rightarrow> (string \<rightharpoonup> node \<times> string)" where
  "putEntry e m = m(fst e \<mapsto> (snd e, childToken (snd e)))"

definition matchedAt :: "(string \<rightharpoonup> node \<times> string) \<Rightarrow> string list \<Rightarrow> nat set" where
  "matchedAt sg ks = {j. sg (ks ! j) \<noteq> None}"

section \<open>Example scenes\<close>

text \<open>
  The end-to-end example of the specification: one model \<open>car\<close> with two saved child
  meshes named \<open>Wheel\<close> (tokens \<open>t0\<close>, \<open>t1\<close>), and an asset that loads the root mesh,
  two meshes named \<open>Wheel\<close> and one named \<open>Door\<close>.
\<close>

definition exampleTransform :: transform where
  "exampleTransform = \<lparr>position = (0, 0, 0), rotation = None, scaling = None\<rparr>"

definition carModel :: node where
  "carModel =
     \<lparr>node_id = ''car'', node_name = ''Car'', node_kind = ''model'', node_parentId = None,
      node_transform = exampleTransform, node_visible = None, node_enabled = None,
      node_src = Some ''u1/projects/p1/assets/car.gltf'', node_camera = None, node_light = None\<rparr>"

definition wheelNode :: "string \<Rightarrow> node" where
  "wheelNode token =
     \<lparr>node_id = ''car::mesh::'' @ token, node_name = ''Wheel'', node_kind = ''mesh'',
      node_parentId = Some ''car'', node_transform = exampleTransform, node_visible = None,
      node_enabled = None, node_src = None, node_camera = None, node_light = None\<rparr>"

definition loadedMesh :: "string \<Rightarrow> nat \<Rightarrow> mesh" where
  "loadedMesh name uid =
     \<lparr>mesh_name = name, uniqueId = uid, instanceOfMesh = True, mesh_metadata = None,
      mesh_parent = None, mesh_position = (0, 0, 0), mesh_rotation = (0, 0, 0),
      rotationQuaternion = None, mesh_scaling = (1, 1, 1), visibility = 1, isDisposed = False\<rparr>"

definition exampleGraph :: "node list" where
  "exampleGraph = [carModel, wheelNode ''t0'', wheelNode ''t1'']"

definition exampleMeshes :: "mesh list" where
  "exampleMeshes = [loadedMesh ''__root__'' 1, loadedMesh ''Wheel'' 2, loadedMesh ''Wheel'' 3, loadedMesh ''Door'' 4]"

text \<open>
  Further inputs the properties below are evaluated on: a camera node that saves 0 for
  every number, an engine whose loader returns the example asset and whose textures
  start with the primary UV set, a material \<open>CarPaint\<close> with one albedo slot, the same
  model hidden, and a mesh that has only a numeric handle.
\<close>

definition zeroCameraNode :: node where
  "zeroCameraNode =
     \<lparr>node_id = ''cam'', node_name = ''Camera'', node_kind = ''camera'', node_parentId = None,
      node_transform = exampleTransform, node_visible = None, node_enabled = None,
      node_src = None,
      node_camera = Some \<lparr>camType = Some ''ArcRotate'', alpha = Some 0, beta = Some 0,
        radius = Some 0, target = None, lowerRadiusLimit = None, upperRadiusLimit = None,
        minZ = Some 0, maxZ = Some 0, active = True\<rparr>,
      node_light = None\<rparr>"

definition blankTexture :: "string \<Rightarrow> texture" where
  "blankTexture url =
     \<lparr>tex_url = Some url, tex_name = url, coordinatesIndex = Some 0,
      uOffset = Some 0, vOffset = Some 0, uScale = Some 1, vScale = Some 1,
      uAng = Some 0, vAng = Some 0, wAng = Some 0, wrapU = Some 1, wrapV = Some 1\<rparr>"

definition exampleEngine :: engine where
  "exampleEngine =
     \<lparr>LoadAssetContainerAsync = (\<lambda>rootUrl filename. Some exampleMeshes),
      CreateBox = (\<lambda>name. loadedMesh name 100),
      CreateGround = (\<lambda>name. loadedMesh name 101),
      newTexture = blankTexture,
      toLowerCase = asciiToLowerCase,
      parseInt = (\<lambda>token. Some (decimalValue token))\<rparr>"

definition blueTexture :: texture where
  "blueTexture =
     \<lparr>tex_url = Some ''assets/blue.png'', tex_name = ''blue.png'', coordinatesIndex = Some 1,
      uOffset = Some 0.5, vOffset = Some 0.25, uScale = Some 2, vScale = Some 3,
      uAng = Some 0, vAng = Some 0, wAng = Some 1, wrapU = Some 0, wrapV = Some 2\<rparr>"

definition carPaint :: "texture option \<Rightarrow> material" where
  "carPaint t = \<lparr>mat_name = ''CarPaint'', slots = (\<lambda>p. if p = ''albedoTexture'' then t else None)\<rparr>"


definition emptyScene :: scene where
  "emptyScene = \<lparr>meshes = [], cameras = [], activeCamera = None, lights = [], transformNodes = []\<rparr>"

definition hiddenCarModel :: node where
  "hiddenCarModel = carModel\<lparr>node_visible := Some False\<rparr>"

definition hiddenGraph :: "node list" where
  "hiddenGraph = [hiddenCarModel, wheelNode ''t0'', wheelNode ''t1'']"


text \<open>
  Inputs for the identity resolver beyond the specification's example: the second
  \<open>Wheel\<close> loaded as an instance (an \<^verbatim>\<open>InstancedMesh\<close>, which is not an instance of
  \<^verbatim>\<open>BABYLON.Mesh\<close>), a saved child without a name, and a loaded mesh named \<open>Mesh\<close>.
  For the second pass: a mesh stamped with the all-digit token \<open>7\<close>, and the scene
  that holds given meshes and nothing else.
\<close>

definition instancedWheel :: mesh where
  "instancedWheel = (loadedMesh ''Wheel'' 3)\<lparr>instanceOfMesh := False\<rparr>"

definition namelessNode :: node where
  "namelessNode = (wheelNode ''t2'')\<lparr>node_name := []\<rparr>"

definition instancedGraph :: "node list" where
  "instancedGraph = [carModel, wheelNode ''t0'', wheelNode ''t1'', namelessNode]"

definition instancedMeshes :: "mesh list" where
  "instancedMeshes = [loadedMesh ''__root__'' 1, loadedMesh ''Wheel'' 2, instancedWheel, loadedMesh ''Mesh'' 5]"



section \<open>Properties of the path normalizer\<close>

lemma indexOf_Some_first:
  "indexOf s m = Some i \<Longrightarrow>
     take (length m) (drop i s) = m \<and> (\<forall>j<i. take (length m) (drop j s) \<noteq> m)"
proof (induction s arbitrary: i)
  case Nil
  then show ?case by (simp split: if_splits)
next
  case (Cons c cs)
  show ?case
  proof (cases "take (length m) (c # cs) = m")
    case True
    with Cons.prems show ?thesis by simp
  next
    case False
    with Cons.prems obtain k where k: "indexOf cs m = Some k" "i = Suc k" by auto
    from Cons.IH[OF k(1)] have ih: "take (length m) (drop k cs) = m"
      "\<forall>j<k. take (length m) (drop j cs) \<noteq> m" by auto
    have "\<forall>j<Suc k. take (length m) (drop j (c # cs)) \<noteq> m"
    proof (intro allI impI)
      fix j assume "j < Suc k"
      then show "take (length m) (drop j (c # cs)) \<noteq> m"
        using False ih(2) by (cases j) auto
    qed
    with ih(1) k(2) show ?thesis by simp
  qed
qed

lemma indexOf_None_iff:
  "indexOf s m = None \<longleftrightarrow> (\<forall>j. take (length m) (drop j s) \<noteq> m)"
proof (induction s)
  case Nil
  then show ?case by auto
next
  case (Cons c cs)
  show ?case
  proof (cases "take (length m) (c # cs) = m")
    case True
    then have "take (length m) (drop 0 (c # cs)) = m" by simp
    then have "\<not> (\<forall>j. take (length m) (drop j (c # cs)) \<noteq> m)" by blast
    with True show ?thesis by simp
  next
    case False
    have "(\<forall>j. take (length m) (drop j (c # cs)) \<noteq> m) \<longleftrightarrow> (\<forall>j. take (length m) (drop j cs) \<noteq> m)"
    proof
      assume a: "\<forall>j. take (length m) (drop j (c # cs)) \<noteq> m"
      show "\<forall>j. take (length m) (drop j cs) \<noteq> m"
      proof
        fix j from a have "take (length m) (drop (Suc j) (c # cs)) \<noteq> m" by blast
        then show "take (length m) (drop j cs) \<noteq> m" by simp
      qed
    next
      assume a: "\<forall>j. take (length m) (drop j cs) \<noteq> m"
      show "\<forall>j. take (length m) (drop j (c # cs)) \<noteq> m"
      proof
        fix j show "take (length m) (drop j (c # cs)) \<noteq> m"
          using False a by (cases j) auto
      qed
    qed
    with False Cons.IH show ?thesis by simp
  qed
qed

lemma split_str_nonempty: "split_str sep s \<noteq> []"
  by (induction s) (auto split: list.splits)

lemma split_str_parts_no_sep: "x \<in> set (split_str sep s) \<Longrightarrow> sep \<notin> set x"
  by (induction s arbitrary: x) (auto split: if_splits list.splits)

lemma split_str_no_sep: "sep \<notin> set s \<Longrightarrow> split_str sep s = [s]"
  by (induction s) auto

lemma arrayIndexOf_None_iff: "arrayIndexOf xs x = None \<longleftrightarrow> x \<notin> set xs"
  by (induction xs) auto

lemma join_Cons_Cons: "join sep ((c # p) # ps) = c # join sep (p # ps)"
  by (cases ps) auto

lemma join_Nil_Cons: "ps \<noteq> [] \<Longrightarrow> join sep ([] # ps) = sep @ join sep ps"
  by (cases ps) auto

lemma join_split_str:
  "join [r] (split_str sep s) = map (\<lambda>c. if c = sep then r else c) s"
proof (induction s)
  case Nil
  then show ?case by simp
next
  case (Cons c cs)
  show ?case
  proof (cases "c = sep")
    case True
    then show ?thesis using Cons.IH by (simp add: join_Nil_Cons split_str_nonempty)
  next
    case False
    obtain p ps where ps: "split_str sep cs = p # ps"
      using split_str_nonempty[of sep cs] by (cases "split_str sep cs") auto
    with False Cons.IH show ?thesis by (simp add: join_Cons_Cons)
  qed
qed

lemma sanitizePath_map:
  "sanitizePath p = map (\<lambda>c. if c = CHR ''/'' \<or> c = CHR 0x5C then CHR ''_'' else c) p"
  unfolding sanitizePath_def by (simp add: join_split_str)

lemma no_slash_no_marker: "CHR ''/'' \<notin> set s \<Longrightarrow> indexOf s ''/assets/'' = None"
  by (induction s) auto

lemma toRelativeAssetPath_no_slash:
  assumes "CHR ''/'' \<notin> set s"
  shows "toRelativeAssetPath s = s"
proof -
  have 1: "indexOf s ''/assets/'' = None" using assms by (rule no_slash_no_marker)
  have 2: "split_str CHR ''/'' s = [s]" using assms by (rule split_str_no_sep)
  have 3: "filenameFallback s [s] = s"
    by (cases "s = []") (simp_all add: filenameFallback_def sanitizePath_def)
  have "toRelativeAssetPath s = filenameFallback s [s]"
    by (simp add: toRelativeAssetPath_def 1 2 split: option.splits)
  with 3 show ?thesis by simp
qed

lemma filenameFallback_no_slash:
  "CHR ''/'' \<notin> set (filenameFallback p (split_str CHR ''/'' p))"
proof (cases "last (split_str CHR ''/'' p) = []")
  case True
  then show ?thesis by (auto simp: filenameFallback_def sanitizePath_map)
next
  case False
  have "last (split_str CHR ''/'' p) \<in> set (split_str CHR ''/'' p)"
    by (simp add: split_str_nonempty)
  then have "CHR ''/'' \<notin> set (last (split_str CHR ''/'' p))"
    by (rule split_str_parts_no_sep)
  with False show ?thesis by (simp add: filenameFallback_def)
qed

text \<open>
  Claim C6. The normalizer is a total function from strings to strings: no operation of
  its body can fail. On an input with no \<open>/assets/\<close> marker and no \<open>projects\<close>
  segment, normalizing twice gives the same result as normalizing once.
\<close>

theorem toRelativeAssetPath_idempotent_on_relative:
  assumes "\<not> includes_str p ''/assets/''"
    and "''projects'' \<notin> set (split_str CHR ''/'' p)"
  shows "toRelativeAssetPath (toRelativeAssetPath p) = toRelativeAssetPath p"
proof -
  have 1: "indexOf p ''/assets/'' = None" using assms(1) by (simp add: includes_str_def)
  have 2: "arrayIndexOf (split_str CHR ''/'' p) ''projects'' = None"
    using assms(2) by (simp add: arrayIndexOf_None_iff)
  have "toRelativeAssetPath p = filenameFallback p (split_str CHR ''/'' p)"
    by (simp add: toRelativeAssetPath_def 1 2)
  then show ?thesis
    using filenameFallback_no_slash[of p] by (simp add: toRelativeAssetPath_no_slash)
qed

theorem toRelativeAssetPath_idempotent_on_relative_example:
  "\<not> includes_str ''models/car.gltf'' ''/assets/'' \<and>
   ''projects'' \<notin> set (split_str CHR ''/'' ''models/car.gltf'') \<and>
   toRelativeAssetPath ''models/car.gltf'' = ''car.gltf'' \<and>
   toRelativeAssetPath (toRelativeAssetPath ''models/car.gltf'') = toRelativeAssetPath ''models/car.gltf''"
proof -
  have a: "\<not> includes_str ''models/car.gltf'' ''/assets/''" by (simp add: includes_str_def)
  have b: "''projects'' \<notin> set (split_str CHR ''/'' ''models/car.gltf'')" by simp
  have c: "toRelativeAssetPath ''models/car.gltf'' = ''car.gltf''"
    by (simp add: toRelativeAssetPath_def filenameFallback_def)
  note d = toRelativeAssetPath_idempotent_on_relative[OF a b]
  show ?thesis by (rule conjI[OF a conjI[OF b conjI[OF c d]]])
qed

text \<open>
  Claim C2, as amended. When the path contains \<open>/assets/\<close> (at some position \<open>k\<close>),
  the result is everything after the first occurrence of the marker: the position \<open>i\<close>
  below is an occurrence and no smaller position is one.
\<close>

theorem toRelativeAssetPath_after_first_marker:
  assumes "take 8 (drop k p) = ''/assets/''"
  shows "\<exists>i\<le>k. take 8 (drop i p) = ''/assets/'' \<and>
               (\<forall>j<i. take 8 (drop j p) \<noteq> ''/assets/'') \<and>
               toRelativeAssetPath p = drop (i + 8) p"
proof -
  have L: "length ''/assets/'' = 8" by simp
  have "indexOf p ''/assets/'' \<noteq> None"
  proof
    assume "indexOf p ''/assets/'' = None"
    then have "\<forall>j. take (length ''/assets/'') (drop j p) \<noteq> ''/assets/''"
      using indexOf_None_iff[of p "''/assets/''"] by (rule_tac iffD1)
    then have "take 8 (drop k p) \<noteq> ''/assets/''" unfolding L by (rule spec)
    then show False using assms by (rule notE)
  qed
  then obtain i where i: "indexOf p ''/assets/'' = Some i" by (cases "indexOf p ''/assets/''") auto
  from indexOf_Some_first[OF i, unfolded L] have occ: "take 8 (drop i p) = ''/assets/''"
    and first: "\<forall>j<i. take 8 (drop j p) \<noteq> ''/assets/''" by (rule conjunct1, rule conjunct2)
  have le: "i \<le> k"
  proof (rule ccontr)
    assume "\<not> i \<le> k"
    then have "k < i" by simp
    with first[THEN spec, of k] have "take 8 (drop k p) \<noteq> ''/assets/''" by (rule mp)
    then show False using assms by (rule notE)
  qed
  have res: "toRelativeAssetPath p = drop (i + 8) p"
    unfolding toRelativeAssetPath_def Let_def i L by simp
  show ?thesis by (rule exI[of _ i]) (rule conjI[OF le conjI[OF occ conjI[OF first res]]])
qed

theorem toRelativeAssetPath_after_first_marker_example:
  "take 8 (drop 2 ''u1/assets/models/car.gltf'') = ''/assets/'' \<and>
   toRelativeAssetPath ''u1/assets/models/car.gltf'' = ''models/car.gltf'' \<and>
   (\<exists>i\<le>2. take 8 (drop i ''u1/assets/models/car.gltf'') = ''/assets/'' \<and>
        (\<forall>j<i. take 8 (drop j ''u1/assets/models/car.gltf'') \<noteq> ''/assets/'') \<and>
        toRelativeAssetPath ''u1/assets/models/car.gltf'' = drop (i + 8) ''u1/assets/models/car.gltf'')"
proof -
  have a: "take 8 (drop 2 ''u1/assets/models/car.gltf'') = ''/assets/''" by simp
  have b: "toRelativeAssetPath ''u1/assets/models/car.gltf'' = ''models/car.gltf''"
    by (simp add: toRelativeAssetPath_def)
  note c = toRelativeAssetPath_after_first_marker[OF a]
  show ?thesis by (rule conjI[OF a conjI[OF b c]])
qed

text \<open>
  Claim C2 as stated fails: with two markers the last one starts at position 10, and the
  result is not what follows it.
\<close>

theorem toRelativeAssetPath_not_after_last_marker:
  "includes_str ''a/assets/b/assets/c'' ''/assets/'' \<and>
   lastIndexOf ''a/assets/b/assets/c'' ''/assets/'' = Some 10 \<and>
   toRelativeAssetPath ''a/assets/b/assets/c'' = ''b/assets/c'' \<and>
   toRelativeAssetPath ''a/assets/b/assets/c'' \<noteq> drop (10 + 8) ''a/assets/b/assets/c''"
  by (simp add: toRelativeAssetPath_def includes_str_def)

text \<open>
  Claim C7, as amended. When no earlier rule produces a result (no marker, nothing from
  the \<open>projects\<close> rule, empty last segment), the result is the input with every \<open>/\<close>
  and backslash replaced by \<open>_\<close>; it is empty exactly when the input is empty.
\<close>

theorem toRelativeAssetPath_fallback_sanitizes:
  assumes "indexOf p ''/assets/'' = None"
    and "\<forall>k. arrayIndexOf (split_str CHR ''/'' p) ''projects'' = Some k \<longrightarrow>
             k + 2 < length (split_str CHR ''/'' p) \<longrightarrow>
             join ''/'' (drop (k + 2) (split_str CHR ''/'' p)) = []"
    and "last (split_str CHR ''/'' p) = []"
  shows "toRelativeAssetPath p = map (\<lambda>c. if c = CHR ''/'' \<or> c = CHR 0x5C then CHR ''_'' else c) p \<and>
         (toRelativeAssetPath p = [] \<longleftrightarrow> p = [])"
proof -
  have fb: "filenameFallback p (split_str CHR ''/'' p) = sanitizePath p"
    using assms(3) by (simp add: filenameFallback_def)
  have "toRelativeAssetPath p = sanitizePath p"
    using assms(1,2) fb by (auto simp: toRelativeAssetPath_def Let_def split: option.splits)
  then show ?thesis by (simp add: sanitizePath_map)
qed

theorem toRelativeAssetPath_fallback_sanitizes_example:
  "toRelativeAssetPath ''projects/x/'' = ''projects_x_'' \<and>
   toRelativeAssetPath ''projects/x/'' =
     map (\<lambda>c. if c = CHR ''/'' \<or> c = CHR 0x5C then CHR ''_'' else c) ''projects/x/'' \<and>
   (toRelativeAssetPath ''projects/x/'' = [] \<longleftrightarrow> ''projects/x/'' = [])"
proof -
  have a: "indexOf ''projects/x/'' ''/assets/'' = None" by simp
  have sp: "split_str CHR ''/'' ''projects/x/'' = [''projects'', ''x'', []]" by simp
  have b: "\<forall>k. arrayIndexOf (split_str CHR ''/'' ''projects/x/'') ''projects'' = Some k \<longrightarrow>
             k + 2 < length (split_str CHR ''/'' ''projects/x/'') \<longrightarrow>
             join ''/'' (drop (k + 2) (split_str CHR ''/'' ''projects/x/'')) = []"
    unfolding sp by auto
  have c: "last (split_str CHR ''/'' ''projects/x/'') = []" by simp
  have d: "map (\<lambda>c. if c = CHR ''/'' \<or> c = CHR 0x5C then CHR ''_'' else c) ''projects/x/'' = ''projects_x_''"
    by simp
  from toRelativeAssetPath_fallback_sanitizes[OF a b c] d show ?thesis by simp
qed

text \<open>Claim C7 as stated fails: the empty path is normalized to the empty string.\<close>

theorem toRelativeAssetPath_empty_is_empty: "toRelativeAssetPath [] = []"
  by (simp add: toRelativeAssetPath_def filenameFallback_def sanitizePath_def)

section \<open>Properties of the fog mode\<close>

text \<open>
  Claim C9. \<open>exp2\<close>, \<open>linear\<close> and \<open>exp\<close> map to their constants; every other
  setting, the absent one included, maps to \<open>FOGMODE_NONE\<close>.
\<close>

theorem fogModeOf_mapping:
  "fogModeOf (Some ''exp2'') = FOGMODE_EXP2 \<and>
   fogModeOf (Some ''linear'') = FOGMODE_LINEAR \<and>
   fogModeOf (Some ''exp'') = FOGMODE_EXP \<and>
   (\<forall>fm. fm \<noteq> Some ''exp2'' \<and> fm \<noteq> Some ''linear'' \<and> fm \<noteq> Some ''exp'' \<longrightarrow> fogModeOf fm = FOGMODE_NONE)"
  by (simp add: fogModeOf_def)

theorem fogModeOf_mapping_example:
  "fogModeOf (Some ''exp2'') = FOGMODE_EXP2 \<and> fogModeOf (Some ''fancy'') = FOGMODE_NONE \<and>
   fogModeOf None = FOGMODE_NONE"
proof -
  have a: "Some ''fancy'' \<noteq> Some ''exp2'' \<and> Some ''fancy'' \<noteq> Some ''linear'' \<and> Some ''fancy'' \<noteq> Some ''exp''"
    by simp
  have b: "(None :: string option) \<noteq> Some ''exp2'' \<and> None \<noteq> Some ''linear'' \<and> None \<noteq> Some ''exp''"
    by simp
  note none = fogModeOf_mapping[THEN conjunct2, THEN conjunct2, THEN conjunct2]
  show ?thesis
    by (rule conjI[OF fogModeOf_mapping[THEN conjunct1]
          conjI[OF none[THEN spec, THEN mp, OF a] none[THEN spec, THEN mp, OF b]]])
qed

section \<open>Properties of the identity resolver\<close>

lemma digitChar_inj: "a < 10 \<Longrightarrow> b < 10 \<Longrightarrow> digitChar a = digitChar b \<Longrightarrow> a = b"
proof -
  assume a: "a < 10" and b: "b < 10" and e: "digitChar a = digitChar b"
  have d: "distinct ''0123456789''" by simp
  have "length ''0123456789'' = 10" by simp
  with a b e d show "a = b"
    unfolding digitChar_def by (metis nth_eq_iff_index_eq)
qed

lemma digitChar_not_colon: "d < 10 \<Longrightarrow> digitChar d \<noteq> CHR '':''"
proof -
  assume "d < 10"
  then have "digitChar d \<in> set ''0123456789''"
    unfolding digitChar_def by (intro nth_mem) simp
  then show ?thesis by auto
qed

lemma numberToString_nonempty: "numberToString n \<noteq> []"
  by (subst numberToString.simps) simp

lemma numberToString_no_colon: "CHR '':'' \<notin> set (numberToString n)"
proof (induction n rule: numberToString.induct)
  case (1 n)
  show ?case
  proof (cases "n < 10")
    case True
    then show ?thesis
      using digitChar_not_colon[of n] by (subst numberToString.simps) auto
  next
    case False
    have "n mod 10 < 10" by simp
    then have "digitChar (n mod 10) \<noteq> CHR '':''" by (rule digitChar_not_colon)
    with False 1 show ?thesis
      by (subst numberToString.simps) auto
  qed
qed

lemma numberToString_length_ge2: "\<not> n < 10 \<Longrightarrow> 2 \<le> length (numberToString n)"
proof -
  assume "\<not> n < 10"
  then have "numberToString n = numberToString (n div 10) @ [digitChar (n mod 10)]"
    by (subst numberToString.simps) simp
  moreover have "1 \<le> length (numberToString (n div 10))"
    using numberToString_nonempty[of "n div 10"] by (cases "numberToString (n div 10)") auto
  ultimately show ?thesis by simp
qed

lemma numberToString_inj: "numberToString a = numberToString b \<Longrightarrow> a = b"
proof (induction a arbitrary: b rule: numberToString.induct)
  case (1 n)
  show ?case
  proof (cases "n < 10")
    case True
    then have n1: "numberToString n = [digitChar n]" by (subst numberToString.simps) simp
    show ?thesis
    proof (cases "b < 10")
      case True
      then have "numberToString b = [digitChar b]" by (subst numberToString.simps) simp
      with n1 "1.prems" have "digitChar n = digitChar b" by simp
      with \<open>n < 10\<close> True show ?thesis by (rule digitChar_inj)
    next
      case False
      from numberToString_length_ge2[OF False] n1 "1.prems" show ?thesis by simp
    qed
  next
    case False
    then have n1: "numberToString n = numberToString (n div 10) @ [digitChar (n mod 10)]"
      by (subst numberToString.simps) simp
    show ?thesis
    proof (cases "b < 10")
      case True
      then have "numberToString b = [digitChar b]" by (subst numberToString.simps) simp
      with numberToString_length_ge2[OF False] "1.prems" show ?thesis by simp
    next
      case bF: False
      then have "numberToString b = numberToString (b div 10) @ [digitChar (b mod 10)]"
        by (subst numberToString.simps) simp
      with n1 "1.prems" have e: "numberToString (n div 10) = numberToString (b div 10)"
        "digitChar (n mod 10) = digitChar (b mod 10)" by simp_all
      from "1.IH"[OF False e(1)] have q: "n div 10 = b div 10" .
      have "n mod 10 = b mod 10" using e(2) by (intro digitChar_inj) simp_all
      with q show ?thesis by (metis div_mult_mod_eq)
    qed
  qed
qed

lemma last_segment_unique:
  assumes "a @ c # x = b @ c # y" and "c \<notin> set x" and "c \<notin> set y"
  shows "a = b \<and> x = y"
proof -
  have "takeWhile (\<lambda>z. z \<noteq> c) (rev (a @ c # x)) = rev x"
    using assms(2) by (auto simp: takeWhile_tail)
  moreover have "takeWhile (\<lambda>z. z \<noteq> c) (rev (b @ c # y)) = rev y"
    using assms(3) by (auto simp: takeWhile_tail)
  ultimately have "rev x = rev y" using assms(1) by simp
  then have "x = y" by simp
  with assms(1) show ?thesis by simp
qed

lemma key_inj:
  assumes "n1 @ ''::'' @ numberToString i1 = n2 @ ''::'' @ numberToString i2"
  shows "n1 = n2 \<and> i1 = i2"
proof -
  from assms have "(n1 @ '':'') @ CHR '':'' # numberToString i1 = (n2 @ '':'') @ CHR '':'' # numberToString i2"
    by simp
  from last_segment_unique[OF this numberToString_no_colon numberToString_no_colon]
  have "n1 @ '':'' = n2 @ '':''" "numberToString i1 = numberToString i2" by simp_all
  then show ?thesis using numberToString_inj by simp
qed

lemma keysFrom_length: "length (keysFrom cnt names) = length names"
  by (induction names arbitrary: cnt) (simp_all add: Let_def)

lemma keysFrom_nth:
  "i < length names \<Longrightarrow>
   keysFrom cnt names ! i =
     names ! i @ ''::'' @ numberToString (count0 cnt (names ! i) + spec_occurrenceIndex names i)"
proof (induction names arbitrary: cnt i)
  case Nil
  then show ?case by simp
next
  case (Cons nm rest)
  show ?case
  proof (cases i)
    case 0
    then show ?thesis by (simp add: Let_def count0_def spec_occurrenceIndex_def)
  next
    case (Suc k)
    with Cons.prems have k: "k < length rest" by simp
    let ?cnt' = "cnt(nm \<mapsto> count0 cnt nm + 1)"
    have c: "count0 ?cnt' (rest ! k) = count0 cnt (rest ! k) + (if rest ! k = nm then 1 else 0)"
      by (simp add: count0_def)
    have o: "spec_occurrenceIndex (nm # rest) (Suc k) =
             (if rest ! k = nm then 1 else 0) + spec_occurrenceIndex rest k"
      by (auto simp: spec_occurrenceIndex_def)
    have "keysFrom cnt (nm # rest) ! i = keysFrom ?cnt' rest ! k"
      using Suc by (simp add: Let_def count0_def)
    also have "\<dots> = rest ! k @ ''::'' @ numberToString (count0 ?cnt' (rest ! k) + spec_occurrenceIndex rest k)"
      by (rule Cons.IH[OF k])
    finally show ?thesis using Suc c o by (simp add: add.commute add.left_commute)
  qed
qed

lemma keysFrom_empty_nth:
  "i < length names \<Longrightarrow> keysFrom Map.empty names ! i = spec_key names i"
  by (simp add: keysFrom_nth count0_def spec_key_def)

lemma occurrence_lt:
  assumes "i < j" "j < length names" "names ! i = names ! j"
  shows "spec_occurrenceIndex names i < spec_occurrenceIndex names j"
proof -
  have "take j names = take i names @ names ! i # take (j - Suc i) (drop (Suc i) names)"
  proof -
    have "take j names = take (i + (j - i)) names" using assms(1) by simp
    also have "\<dots> = take i names @ take (j - i) (drop i names)" by (rule take_add)
    also have "drop i names = names ! i # drop (Suc i) names"
      using assms(1,2) by (simp add: Cons_nth_drop_Suc)
    also have "take (j - i) (names ! i # drop (Suc i) names) =
               names ! i # take (j - Suc i) (drop (Suc i) names)"
    proof -
      from assms(1) have "j - i = Suc (j - Suc i)" by simp
      then show ?thesis by simp
    qed
    finally show ?thesis .
  qed
  then show ?thesis using assms(3) by (simp add: spec_occurrenceIndex_def)
qed

lemma spec_key_inj:
  assumes "i < length names" "j < length names" "spec_key names i = spec_key names j"
  shows "i = j"
proof (rule ccontr)
  assume ne: "i \<noteq> j"
  from assms(3) have e: "names ! i = names ! j"
    "spec_occurrenceIndex names i = spec_occurrenceIndex names j"
    using key_inj unfolding spec_key_def by blast+
  show False
  proof (cases "i < j")
    case True
    from occurrence_lt[OF True assms(2) e(1)] e(2) show False by simp
  next
    case False
    with ne have "j < i" by simp
    from occurrence_lt[OF this assms(1) e(1)[symmetric]] e(2) show False by simp
  qed
qed

lemma buildSgIndex_fold:
  "buildSgIndex eng cs cnt sg = fold putEntry (zip (keysFrom cnt (map (childKeyName eng) cs)) cs) sg"
proof (induction cs arbitrary: cnt sg)
  case Nil
  then show ?case by simp
next
  case (Cons c cs)
  show ?case
    by (simp add: Let_def Cons.IH putEntry_def del: fun_upd_apply)
qed

lemma fold_putEntry_notin:
  "k \<notin> set ks \<Longrightarrow> fold putEntry (zip ks vs) m0 k = m0 k"
proof (induction ks arbitrary: vs m0)
  case Nil
  then show ?case by simp
next
  case (Cons a ks)
  show ?case
  proof (cases vs)
    case Nil
    then show ?thesis by simp
  next
    case (Cons v vs')
    have "fold putEntry (zip (a # ks) vs) m0 k = fold putEntry (zip ks vs') (putEntry (a, v) m0) k"
      using Cons by simp
    also have "\<dots> = putEntry (a, v) m0 k"
      using Cons.prems by (intro Cons.IH) simp
    also have "\<dots> = m0 k" using Cons.prems by (simp add: putEntry_def)
    finally show ?thesis .
  qed
qed

lemma fold_putEntry_distinct:
  "distinct ks \<Longrightarrow> length vs = length ks \<Longrightarrow> i < length ks \<Longrightarrow>
   fold putEntry (zip ks vs) m0 (ks ! i) = Some (vs ! i, childToken (vs ! i))"
proof (induction ks arbitrary: vs m0 i)
  case Nil
  then show ?case by simp
next
  case (Cons a ks)
  from Cons.prems(2) obtain v vs' where vs: "vs = v # vs'" by (cases vs) auto
  have step: "fold putEntry (zip (a # ks) vs) m0 = fold putEntry (zip ks vs') (putEntry (a, v) m0)"
    using vs by simp
  show ?case
  proof (cases i)
    case 0
    from Cons.prems(1) have "a \<notin> set ks" by simp
    then have "fold putEntry (zip ks vs') (putEntry (a, v) m0) a = putEntry (a, v) m0 a"
      by (rule fold_putEntry_notin)
    moreover have "putEntry (a, v) m0 a = Some (v, childToken v)" by (simp add: putEntry_def)
    ultimately show ?thesis using 0 vs step by simp
  next
    case (Suc j)
    have "fold putEntry (zip ks vs') (putEntry (a, v) m0) (ks ! j) = Some (vs' ! j, childToken (vs' ! j))"
      using Cons.prems vs Suc by (intro Cons.IH) simp_all
    then show ?thesis using Suc vs step by simp
  qed
qed

lemma child_keys_distinct: "distinct (keysFrom Map.empty names)"
proof -
  have "\<And>i j. i < length names \<Longrightarrow> j < length names \<Longrightarrow> i \<noteq> j \<Longrightarrow>
          keysFrom Map.empty names ! i \<noteq> keysFrom Map.empty names ! j"
    using spec_key_inj by (auto simp: keysFrom_empty_nth)
  then show ?thesis by (simp add: distinct_conv_nth keysFrom_length)
qed

lemma sgIndex_hit:
  assumes "i < length cs"
  shows "buildSgIndex eng cs Map.empty Map.empty (spec_key (map (childKeyName eng) cs) i) =
           Some (cs ! i, childToken (cs ! i))"
proof -
  let ?ks = "keysFrom Map.empty (map (childKeyName eng) cs)"
  have l: "length cs = length ?ks" by (simp add: keysFrom_length)
  have i: "i < length ?ks" using assms l by simp
  have k: "?ks ! i = spec_key (map (childKeyName eng) cs) i"
    using assms by (simp add: keysFrom_empty_nth)
  from fold_putEntry_distinct[OF child_keys_distinct l i, of Map.empty]
  show ?thesis unfolding buildSgIndex_fold k .
qed

lemma sgIndex_miss:
  assumes "\<forall>i<length cs. spec_key (map (childKeyName eng) cs) i \<noteq> k"
  shows "buildSgIndex eng cs Map.empty Map.empty k = None"
proof -
  let ?ks = "keysFrom Map.empty (map (childKeyName eng) cs)"
  have "k \<notin> set ?ks"
  proof
    assume "k \<in> set ?ks"
    then obtain i where "i < length ?ks" "?ks ! i = k" by (auto simp: in_set_conv_nth)
    then have "i < length cs" "spec_key (map (childKeyName eng) cs) i = k"
      by (simp_all add: keysFrom_length keysFrom_empty_nth)
    with assms show False by blast
  qed
  from fold_putEntry_notin[OF this, of cs Map.empty]
  show ?thesis unfolding buildSgIndex_fold by simp
qed

lemma matchedAt_Cons: "{j. Suc j \<in> matchedAt sg (k # ks)} = matchedAt sg ks"
  by (simp add: matchedAt_def)

lemma matchedAt_0: "0 \<in> matchedAt sg (k # ks) \<longleftrightarrow> sg k \<noteq> None"
  by (simp add: matchedAt_def)

lemma walk_shape:
  "walkRuntimeMeshes eng sg pv pe rs cnt keep =
     (map2 (outcomeOf sg pv pe) (keysFrom cnt (map (meshKeyName eng) rs)) rs,
      keep @ nths (map2 (outcomeOf sg pv pe) (keysFrom cnt (map (meshKeyName eng) rs)) rs)
               (matchedAt sg (keysFrom cnt (map (meshKeyName eng) rs))))"
proof (induction rs arbitrary: cnt keep)
  case Nil
  then show ?case by simp
next
  case (Cons m rest)
  show ?case
  proof (cases "sg (meshKeyName eng m @ ''::'' @
                     numberToString (case cnt (meshKeyName eng m) of Some i \<Rightarrow> i | None \<Rightarrow> 0))")
    case None
    then show ?thesis
      by (simp add: Let_def Cons.IH outcomeOf_def nths_Cons matchedAt_Cons matchedAt_0
            del: fun_upd_apply)
  next
    case (Some e)
    then show ?thesis
      by (cases e)
         (simp add: Let_def Cons.IH outcomeOf_def nths_Cons matchedAt_Cons matchedAt_0
            del: fun_upd_apply)
  qed
qed

lemma nths_cong_below:
  "(\<And>j. j < length xs \<Longrightarrow> j \<in> A \<longleftrightarrow> j \<in> B) \<Longrightarrow> nths xs A = nths xs B"
proof -
  assume a: "\<And>j. j < length xs \<Longrightarrow> j \<in> A \<longleftrightarrow> j \<in> B"
  have "filter (\<lambda>p. snd p \<in> A) (zip xs [0..<length xs]) = filter (\<lambda>p. snd p \<in> B) (zip xs [0..<length xs])"
  proof (rule filter_cong[OF refl])
    fix p assume "p \<in> set (zip xs [0..<length xs])"
    then have "snd p \<in> set [0..<length xs]" by (metis in_set_zipE prod.collapse)
    then show "(snd p \<in> A) = (snd p \<in> B)" using a by simp
  qed
  then show ?thesis by (simp add: nths_def)
qed

lemma hasStableId_stampMesh: "hasStableId tok (stampMesh cn tok pv pe m)"
  by (simp add: hasStableId_def stampMesh_def setStableId_def ensureMetadata_def Let_def
      split: option.splits)

lemma isDisposed_disposeMesh: "isDisposed (disposeMesh m)"
  by (simp add: disposeMesh_def)

lemma resolveIdentities_outcomes:
  assumes "resolveIdentities eng graph node resultMeshes = (processed, kept)"
  shows "let cs = childNodesOf graph node;
             rs = actualMeshesOf resultMeshes;
             ckey = spec_key (map (childKeyName eng) cs);
             rkey = spec_key (map (meshKeyName eng) rs);
             pv = (node_visible node \<noteq> Some False);
             pe = (node_enabled node \<noteq> Some False)
         in length processed = length rs \<and>
            (\<forall>j<length rs. \<forall>i<length cs. rkey j = ckey i \<longrightarrow>
               processed ! j = stampMesh (cs ! i) (childToken (cs ! i)) pv pe (rs ! j) \<and>
               hasStableId (childToken (cs ! i)) (processed ! j)) \<and>
            (\<forall>j<length rs. (\<forall>i<length cs. rkey j \<noteq> ckey i) \<longrightarrow>
               processed ! j = disposeMesh (rs ! j) \<and> isDisposed (processed ! j)) \<and>
            kept = nths processed {j. j < length rs \<and> (\<exists>i<length cs. rkey j = ckey i)}"
proof -
  define cs where "cs = childNodesOf graph node"
  define rs where "rs = actualMeshesOf resultMeshes"
  define sg where "sg = buildSgIndex eng cs Map.empty Map.empty"
  define pv where "pv = (node_visible node \<noteq> Some False)"
  define pe where "pe = (node_enabled node \<noteq> Some False)"
  define ks where "ks = keysFrom Map.empty (map (meshKeyName eng) rs)"
  define ckey where "ckey = spec_key (map (childKeyName eng) cs)"
  define rkey where "rkey = spec_key (map (meshKeyName eng) rs)"
  have lks: "length ks = length rs" by (simp add: ks_def keysFrom_length)
  have ksj: "\<And>j. j < length rs \<Longrightarrow> ks ! j = rkey j"
    by (simp add: ks_def rkey_def keysFrom_empty_nth)
  have hit: "\<And>i. i < length cs \<Longrightarrow> sg (ckey i) = Some (cs ! i, childToken (cs ! i))"
    unfolding sg_def ckey_def by (rule sgIndex_hit)
  have miss: "\<And>k. \<forall>i<length cs. ckey i \<noteq> k \<Longrightarrow> sg k = None"
    unfolding sg_def ckey_def by (rule sgIndex_miss)
  have "resolveIdentities eng graph node resultMeshes = walkRuntimeMeshes eng sg pv pe rs Map.empty []"
    by (simp add: resolveIdentities_def Let_def cs_def rs_def sg_def pv_def pe_def)
  with assms have "(processed, kept) =
      (map2 (outcomeOf sg pv pe) ks rs, [] @ nths (map2 (outcomeOf sg pv pe) ks rs) (matchedAt sg ks))"
    unfolding ks_def by (simp only: walk_shape)
  then have pk: "processed = map2 (outcomeOf sg pv pe) ks rs"
      "kept = nths processed (matchedAt sg ks)"
    by simp_all
  have len: "length processed = length rs" by (simp add: pk(1) lks)
  have pj: "\<And>j. j < length rs \<Longrightarrow> processed ! j = outcomeOf sg pv pe (rkey j) (rs ! j)"
    by (simp add: pk(1) lks ksj)
  have m1: "\<forall>j<length rs. \<forall>i<length cs. rkey j = ckey i \<longrightarrow>
               processed ! j = stampMesh (cs ! i) (childToken (cs ! i)) pv pe (rs ! j) \<and>
               hasStableId (childToken (cs ! i)) (processed ! j)"
  proof (intro allI impI)
    fix j i assume j: "j < length rs" and i: "i < length cs" and e: "rkey j = ckey i"
    have "processed ! j = stampMesh (cs ! i) (childToken (cs ! i)) pv pe (rs ! j)"
      by (simp add: pj[OF j] e outcomeOf_def hit[OF i])
    then show "processed ! j = stampMesh (cs ! i) (childToken (cs ! i)) pv pe (rs ! j) \<and>
               hasStableId (childToken (cs ! i)) (processed ! j)"
      by (simp add: hasStableId_stampMesh)
  qed
  have m2: "\<forall>j<length rs. (\<forall>i<length cs. rkey j \<noteq> ckey i) \<longrightarrow>
               processed ! j = disposeMesh (rs ! j) \<and> isDisposed (processed ! j)"
  proof (intro allI impI)
    fix j assume j: "j < length rs" and n: "\<forall>i<length cs. rkey j \<noteq> ckey i"
    then have "sg (rkey j) = None" by (intro miss) auto
    then have "processed ! j = disposeMesh (rs ! j)"
      by (simp add: pj[OF j] outcomeOf_def)
    then show "processed ! j = disposeMesh (rs ! j) \<and> isDisposed (processed ! j)"
      by (simp add: isDisposed_disposeMesh)
  qed
  have m3: "kept = nths processed {j. j < length rs \<and> (\<exists>i<length cs. rkey j = ckey i)}"
  proof -
    have "nths processed (matchedAt sg ks) =
          nths processed {j. j < length rs \<and> (\<exists>i<length cs. rkey j = ckey i)}"
    proof (rule nths_cong_below)
      fix j assume "j < length processed"
      then have j: "j < length rs" by (simp add: len)
      show "j \<in> matchedAt sg ks \<longleftrightarrow> j \<in> {j. j < length rs \<and> (\<exists>i<length cs. rkey j = ckey i)}"
      proof (cases "\<exists>i<length cs. rkey j = ckey i")
        case True
        then obtain i where "i < length cs" "rkey j = ckey i" by blast
        then have "sg (ks ! j) \<noteq> None" using hit[of i] ksj[OF j] by simp
        with True j show ?thesis by (simp add: matchedAt_def)
      next
        case False
        then have "sg (rkey j) = None" by (intro miss) auto
        with False j ksj[OF j] show ?thesis by (simp add: matchedAt_def)
      qed
    qed
    with pk(2) show ?thesis by simp
  qed
  from len m1 m2 m3 show ?thesis
    unfolding Let_def cs_def[symmetric] rs_def[symmetric] ckey_def[symmetric] rkey_def[symmetric]
      pv_def[symmetric] pe_def[symmetric]
    by blast
qed

lemma actualMeshesOf_explicit:
  "actualMeshesOf ms = filter (\<lambda>m. instanceOfMesh m \<and> mesh_name m \<noteq> ''__root__'') ms"
  by (simp add: actualMeshesOf_def)

lemma childKeyName_explicit:
  "childKeyName eng = (\<lambda>n. toLowerCase eng (if node_name n = [] then ''Mesh'' else node_name n))"
  by (rule ext) (simp add: childKeyName_def orString_def)

lemma meshKeyName_explicit:
  "meshKeyName eng = (\<lambda>m. toLowerCase eng (if mesh_name m = [] then ''Mesh'' else mesh_name m))"
  by (rule ext) (simp add: meshKeyName_def orString_def)

lemma childToken_explicit:
  "childToken c =
     (case lastIndexOf (node_id c) ''::mesh::'' of
        Some k \<Rightarrow> drop (k + 8) (node_id c)
      | None \<Rightarrow> [])"
proof -
  have L: "length ''::mesh::'' = 8" by simp
  have o: "orString t [] = t" for t by (simp add: orString_def)
  show ?thesis
    unfolding childToken_def getChildTokenFromId_def MESH_TAG_def L
    by (cases "lastIndexOf (node_id c) ''::mesh::''") (simp_all only: option.case o)
qed

lemma stampMesh_explicit:
  "stampMesh cn tok pv pe m =
     m\<lparr>mesh_metadata :=
         Some ((case mesh_metadata m of Some md \<Rightarrow> md | None \<Rightarrow> \<lparr>stableId = None\<rparr>)
                 \<lparr>stableId := Some tok\<rparr>),
       visibility :=
         (if node_visible cn \<noteq> Some False \<and> node_enabled cn \<noteq> Some False \<and> pv \<and> pe
          then 1 else 0)\<rparr>"
  by (cases "mesh_metadata m")
     (simp_all add: stampMesh_def setStableId_def ensureMetadata_def Let_def)

lemma disposeMesh_explicit:
  "disposeMesh m =
     m\<lparr>mesh_metadata :=
         Some (case mesh_metadata m of Some md \<Rightarrow> md | None \<Rightarrow> \<lparr>stableId = None\<rparr>),
       isDisposed := True\<rparr>"
proof (cases "mesh_metadata m")
  case None
  then show ?thesis by (simp add: disposeMesh_def ensureMetadata_def)
next
  case (Some md)
  then have "m\<lparr>mesh_metadata := Some md\<rparr> = m" by (cases m) simp
  with Some show ?thesis by (simp add: disposeMesh_def ensureMetadata_def)
qed

lemma list3: "length xs = 3 \<Longrightarrow> xs = [xs ! 0, xs ! 1, xs ! 2]"
  by (cases xs; cases "tl xs"; cases "tl (tl xs)") (auto simp: numeral_3_eq_3)

lemma instanced_eval:
  "resolveIdentities exampleEngine instancedGraph carModel instancedMeshes =
     ([stampMesh (wheelNode ''t0'') ''t0'' True True (loadedMesh ''Wheel'' 2),
       stampMesh namelessNode ''t2'' True True (loadedMesh ''Mesh'' 5)],
      [stampMesh (wheelNode ''t0'') ''t0'' True True (loadedMesh ''Wheel'' 2),
       stampMesh namelessNode ''t2'' True True (loadedMesh ''Mesh'' 5)])"
  by (simp add: resolveIdentities_def instancedGraph_def instancedMeshes_def instancedWheel_def
        namelessNode_def carModel_def
        wheelNode_def loadedMesh_def childNodesOf_def actualMeshesOf_def childKeyName_def
        meshKeyName_def exampleEngine_def asciiToLowerCase_def lowerChar_def orString_def childToken_def
        getChildTokenFromId_def MESH_TAG_def numberToString.simps digitChar_def Let_def)

text \<open>
  Claim C1, as amended. The saved children are the nodes of kind \<open>mesh\<close> whose parent is
  the model; the runtime meshes that take part are the loaded entries that are instances
  of \<^verbatim>\<open>BABYLON.Mesh\<close> and not named \<open>__root__\<close>. Both are keyed by the lower-cased
  name (\<open>Mesh\<close> for an empty name), \<open>::\<close> and the occurrence index. Such a runtime mesh
  whose key is the key of a saved child gets that child's token as stable id (the part of
  the child's id after the last \<open>::mesh::\<close>), the conjunction of the four flags as
  visibility, and is kept; one whose key is the key of no saved child is disposed; the
  final mesh set is exactly the kept meshes, in order. A loaded entry that is not such an
  instance is not touched and is not in the final set.
\<close>

theorem identity_resolver_stamps_matches_disposes_rest:
  assumes "resolveIdentities eng graph node resultMeshes = (processed, kept)"
  shows "let cs = filter (\<lambda>n. node_parentId n = Some (node_id node) \<and> node_kind n = ''mesh'') graph;
             rs = filter (\<lambda>m. instanceOfMesh m \<and> mesh_name m \<noteq> ''__root__'') resultMeshes;
             ckey = spec_key (map (\<lambda>n. toLowerCase eng (if node_name n = [] then ''Mesh'' else node_name n)) cs);
             rkey = spec_key (map (\<lambda>m. toLowerCase eng (if mesh_name m = [] then ''Mesh'' else mesh_name m)) rs);
             tokenOf = (\<lambda>c. case lastIndexOf (node_id c) ''::mesh::'' of
                               Some k \<Rightarrow> drop (k + 8) (node_id c)
                             | None \<Rightarrow> []);
             metaOf = (\<lambda>m. case mesh_metadata m of Some md \<Rightarrow> md | None \<Rightarrow> \<lparr>stableId = None\<rparr>)
         in length processed = length rs \<and>
            (\<forall>j<length rs. \<forall>i<length cs. rkey j = ckey i \<longrightarrow>
               processed ! j =
                 (rs ! j)\<lparr>mesh_metadata := Some ((metaOf (rs ! j))\<lparr>stableId := Some (tokenOf (cs ! i))\<rparr>),
                          visibility :=
                            (if node_visible (cs ! i) \<noteq> Some False \<and> node_enabled (cs ! i) \<noteq> Some False \<and>
                                node_visible node \<noteq> Some False \<and> node_enabled node \<noteq> Some False
                             then 1 else 0)\<rparr>) \<and>
            (\<forall>j<length rs. (\<forall>i<length cs. rkey j \<noteq> ckey i) \<longrightarrow>
               processed ! j = (rs ! j)\<lparr>mesh_metadata := Some (metaOf (rs ! j)), isDisposed := True\<rparr>) \<and>
            kept = nths processed {j. j < length rs \<and> (\<exists>i<length cs. rkey j = ckey i)}"
proof -
  define cs where "cs = filter (\<lambda>n. node_parentId n = Some (node_id node) \<and> node_kind n = ''mesh'') graph"
  define rs where "rs = filter (\<lambda>m. instanceOfMesh m \<and> mesh_name m \<noteq> ''__root__'') resultMeshes"
  define ckey where "ckey = spec_key (map (\<lambda>n. toLowerCase eng (if node_name n = [] then ''Mesh'' else node_name n)) cs)"
  define rkey where "rkey = spec_key (map (\<lambda>m. toLowerCase eng (if mesh_name m = [] then ''Mesh'' else mesh_name m)) rs)"
  have c1: "childNodesOf graph node = cs" by (simp add: childNodesOf_def cs_def)
  have c2: "actualMeshesOf resultMeshes = rs" by (simp add: actualMeshesOf_explicit rs_def)
  have c3: "spec_key (map (childKeyName eng) cs) = ckey"
    unfolding childKeyName_explicit ckey_def ..
  have c4: "spec_key (map (meshKeyName eng) rs) = rkey"
    unfolding meshKeyName_explicit rkey_def ..
  note R = resolveIdentities_outcomes[OF assms, unfolded Let_def c1 c2 c3 c4]
  have len: "length processed = length rs" by (rule R[THEN conjunct1])
  have m1: "\<forall>j<length rs. \<forall>i<length cs. rkey j = ckey i \<longrightarrow>
               processed ! j =
                 (rs ! j)\<lparr>mesh_metadata :=
                             Some ((case mesh_metadata (rs ! j) of Some md \<Rightarrow> md | None \<Rightarrow> \<lparr>stableId = None\<rparr>)
                                   \<lparr>stableId := Some (case lastIndexOf (node_id (cs ! i)) ''::mesh::'' of
                                                        Some k \<Rightarrow> drop (k + 8) (node_id (cs ! i))
                                                      | None \<Rightarrow> [])\<rparr>),
                          visibility :=
                            (if node_visible (cs ! i) \<noteq> Some False \<and> node_enabled (cs ! i) \<noteq> Some False \<and>
                                node_visible node \<noteq> Some False \<and> node_enabled node \<noteq> Some False
                             then 1 else 0)\<rparr>"
  proof (intro allI impI)
    fix j i assume j: "j < length rs" and i: "i < length cs" and e: "rkey j = ckey i"
    from R[THEN conjunct2, THEN conjunct1, THEN spec, THEN mp, OF j, THEN spec, THEN mp, OF i,
           THEN mp, OF e, THEN conjunct1]
    show "processed ! j =
                 (rs ! j)\<lparr>mesh_metadata :=
                             Some ((case mesh_metadata (rs ! j) of Some md \<Rightarrow> md | None \<Rightarrow> \<lparr>stableId = None\<rparr>)
                                   \<lparr>stableId := Some (case lastIndexOf (node_id (cs ! i)) ''::mesh::'' of
                                                        Some k \<Rightarrow> drop (k + 8) (node_id (cs ! i))
                                                      | None \<Rightarrow> [])\<rparr>),
                          visibility :=
                            (if node_visible (cs ! i) \<noteq> Some False \<and> node_enabled (cs ! i) \<noteq> Some False \<and>
                                node_visible node \<noteq> Some False \<and> node_enabled node \<noteq> Some False
                             then 1 else 0)\<rparr>"
      unfolding stampMesh_explicit childToken_explicit .
  qed
  have m2: "\<forall>j<length rs. (\<forall>i<length cs. rkey j \<noteq> ckey i) \<longrightarrow>
               processed ! j =
                 (rs ! j)\<lparr>mesh_metadata :=
                             Some (case mesh_metadata (rs ! j) of Some md \<Rightarrow> md | None \<Rightarrow> \<lparr>stableId = None\<rparr>),
                          isDisposed := True\<rparr>"
  proof (intro allI impI)
    fix j assume j: "j < length rs" and n: "\<forall>i<length cs. rkey j \<noteq> ckey i"
    from R[THEN conjunct2, THEN conjunct2, THEN conjunct1, THEN spec, THEN mp, OF j, THEN mp, OF n,
           THEN conjunct1]
    show "processed ! j =
                 (rs ! j)\<lparr>mesh_metadata :=
                             Some (case mesh_metadata (rs ! j) of Some md \<Rightarrow> md | None \<Rightarrow> \<lparr>stableId = None\<rparr>),
                          isDisposed := True\<rparr>"
      unfolding disposeMesh_explicit .
  qed
  have m3: "kept = nths processed {j. j < length rs \<and> (\<exists>i<length cs. rkey j = ckey i)}"
    by (rule R[THEN conjunct2, THEN conjunct2, THEN conjunct2])
  show ?thesis
    unfolding Let_def cs_def[symmetric] rs_def[symmetric] ckey_def[symmetric] rkey_def[symmetric]
    by (rule conjI[OF len conjI[OF m1 conjI[OF m2 m3]]])
qed

theorem identity_resolver_wheel_door_example:
  "map (\<lambda>m. (mesh_name m, uniqueId m, map_option stableId (mesh_metadata m), isDisposed m))
       (fst (resolveIdentities exampleEngine exampleGraph carModel exampleMeshes)) =
     [(''Wheel'', 2, Some (Some ''t0''), False), (''Wheel'', 3, Some (Some ''t1''), False),
      (''Door'', 4, Some None, True)] \<and>
   map (\<lambda>m. (mesh_name m, uniqueId m, map_option stableId (mesh_metadata m), isDisposed m))
       (snd (resolveIdentities exampleEngine exampleGraph carModel exampleMeshes)) =
     [(''Wheel'', 2, Some (Some ''t0''), False), (''Wheel'', 3, Some (Some ''t1''), False)] \<and>
   length (snd (resolveIdentities exampleEngine exampleGraph carModel exampleMeshes)) = 2"
proof -
  define P where "P = fst (resolveIdentities exampleEngine exampleGraph carModel exampleMeshes)"
  define K where "K = snd (resolveIdentities exampleEngine exampleGraph carModel exampleMeshes)"
  define view where
    "view = (\<lambda>m::mesh. (mesh_name m, uniqueId m, map_option stableId (mesh_metadata m), isDisposed m))"
  have E: "resolveIdentities exampleEngine exampleGraph carModel exampleMeshes = (P, K)"
    by (simp add: P_def K_def)
  have cs: "filter (\<lambda>n. node_parentId n = Some (node_id carModel) \<and> node_kind n = ''mesh'') exampleGraph =
              [wheelNode ''t0'', wheelNode ''t1'']"
    by (simp add: exampleGraph_def carModel_def wheelNode_def)
  have rs: "filter (\<lambda>m. instanceOfMesh m \<and> mesh_name m \<noteq> ''__root__'') exampleMeshes =
              [loadedMesh ''Wheel'' 2, loadedMesh ''Wheel'' 3, loadedMesh ''Door'' 4]"
    by (simp add: exampleMeshes_def loadedMesh_def)
  have cn: "map (\<lambda>n. toLowerCase exampleEngine (if node_name n = [] then ''Mesh'' else node_name n))
              [wheelNode ''t0'', wheelNode ''t1''] = [''wheel'', ''wheel'']"
    by (simp add: wheelNode_def exampleEngine_def asciiToLowerCase_def lowerChar_def)
  have rn: "map (\<lambda>m. toLowerCase exampleEngine (if mesh_name m = [] then ''Mesh'' else mesh_name m))
              [loadedMesh ''Wheel'' 2, loadedMesh ''Wheel'' 3, loadedMesh ''Door'' 4] =
              [''wheel'', ''wheel'', ''door'']"
    by (simp add: loadedMesh_def exampleEngine_def asciiToLowerCase_def lowerChar_def)
  have ck: "spec_key [''wheel'', ''wheel''] 0 = ''wheel::0''"
           "spec_key [''wheel'', ''wheel''] 1 = ''wheel::1''"
    by (simp_all add: spec_key_def spec_occurrenceIndex_def numberToString.simps digitChar_def)
  have rk: "spec_key [''wheel'', ''wheel'', ''door''] 0 = ''wheel::0''"
           "spec_key [''wheel'', ''wheel'', ''door''] 1 = ''wheel::1''"
           "spec_key [''wheel'', ''wheel'', ''door''] 2 = ''door::0''"
    by (simp_all add: spec_key_def spec_occurrenceIndex_def numberToString.simps digitChar_def)
  note T = identity_resolver_stamps_matches_disposes_rest[OF E, unfolded Let_def cs rs cn rn]
  have len: "length P = 3" using T[THEN conjunct1] by simp
  have nomatch: "\<forall>i<length [wheelNode ''t0'', wheelNode ''t1''].
      spec_key [''wheel'', ''wheel'', ''door''] 2 \<noteq> spec_key [''wheel'', ''wheel''] i"
  proof (intro allI impI)
    fix i assume "i < length [wheelNode ''t0'', wheelNode ''t1'']"
    then have "i = 0 \<or> i = 1" by auto
    then show "spec_key [''wheel'', ''wheel'', ''door''] 2 \<noteq> spec_key [''wheel'', ''wheel''] i"
      using ck rk by auto
  qed
  have e00: "spec_key [''wheel'', ''wheel'', ''door''] 0 = spec_key [''wheel'', ''wheel''] 0"
    and e11: "spec_key [''wheel'', ''wheel'', ''door''] 1 = spec_key [''wheel'', ''wheel''] 1"
    by (simp_all only: ck rk)
  have j0: "0 < length [loadedMesh ''Wheel'' 2, loadedMesh ''Wheel'' 3, loadedMesh ''Door'' 4]"
    and j1: "1 < length [loadedMesh ''Wheel'' 2, loadedMesh ''Wheel'' 3, loadedMesh ''Door'' 4]"
    and j2: "2 < length [loadedMesh ''Wheel'' 2, loadedMesh ''Wheel'' 3, loadedMesh ''Door'' 4]"
    and i0: "0 < length [wheelNode ''t0'', wheelNode ''t1'']"
    and i1: "1 < length [wheelNode ''t0'', wheelNode ''t1'']"
    by simp_all
  note stamped = T[THEN conjunct2, THEN conjunct1, THEN spec, THEN mp, THEN spec, THEN mp, THEN mp]
  note disposed = T[THEN conjunct2, THEN conjunct2, THEN conjunct1, THEN spec, THEN mp, THEN mp]
  have p0: "view (P ! 0) = (''Wheel'', 2, Some (Some ''t0''), False)"
    unfolding stamped[OF j0 i0 e00] by (simp add: view_def loadedMesh_def wheelNode_def carModel_def)
  have p1: "view (P ! 1) = (''Wheel'', 3, Some (Some ''t1''), False)"
    unfolding stamped[OF j1 i1 e11] by (simp add: view_def loadedMesh_def wheelNode_def carModel_def)
  have p2: "view (P ! 2) = (''Door'', 4, Some None, True)"
    unfolding disposed[OF j2 nomatch] by (simp add: view_def loadedMesh_def)
  have S: "{j. j < length [loadedMesh ''Wheel'' 2, loadedMesh ''Wheel'' 3, loadedMesh ''Door'' 4] \<and>
              (\<exists>i<length [wheelNode ''t0'', wheelNode ''t1''].
                 spec_key [''wheel'', ''wheel'', ''door''] j = spec_key [''wheel'', ''wheel''] i)} = {0, 1}"
    (is "?S = _")
  proof (rule set_eqI)
    fix j :: nat
    note eqs = ck rk ck[unfolded One_nat_def] rk[unfolded One_nat_def]
    have "j = 0 \<or> j = 1 \<or> j = 2 \<or> 3 \<le> j" by arith
    then show "j \<in> ?S \<longleftrightarrow> j \<in> {0, 1}"
      by (elim disjE) (simp_all add: All_less_Suc Ex_less_Suc eqs)
  qed
  have Pl: "P = [P ! 0, P ! 1, P ! 2]" by (rule list3[OF len])
  have Kl: "K = [P ! 0, P ! 1]"
  proof -
    have "K = nths P {0, 1}"
      using T[THEN conjunct2, THEN conjunct2, THEN conjunct2] unfolding S .
    also have "\<dots> = nths [P ! 0, P ! 1, P ! 2] {0, 1}" using Pl by simp
    also have "\<dots> = [P ! 0, P ! 1]" by (simp add: nths_Cons)
    finally show ?thesis .
  qed
  have a: "map view P = [(''Wheel'', 2, Some (Some ''t0''), False), (''Wheel'', 3, Some (Some ''t1''), False),
      (''Door'', 4, Some None, True)]"
    by (subst Pl) (simp only: list.map p0 p1 p2)
  have b: "map view K = [(''Wheel'', 2, Some (Some ''t0''), False), (''Wheel'', 3, Some (Some ''t1''), False)]"
    by (subst Kl) (simp only: list.map p0 p1)
  have c: "length K = 2" by (subst Kl) simp
  show ?thesis
    unfolding P_def[symmetric] K_def[symmetric] view_def[symmetric]
    by (rule conjI[OF a conjI[OF b c]])
qed

text \<open>
  Claim C1 as stated fails twice on one input. Keyed by the lower-cased name and the
  occurrence index over every loaded entry but the root, the instanced \<open>Wheel\<close> (handle
  3) has the key of the saved child \<open>t1\<close>, and the mesh \<open>Mesh\<close> (handle 5) has the key
  of no saved child, the nameless child being keyed by the empty name. The code leaves
  the instance out (it is neither stamped nor disposed nor kept), and it keys the nameless
  child as \<open>mesh\<close>, so that the mesh \<open>Mesh\<close> is stamped with \<open>t2\<close> and kept.
\<close>

theorem identity_resolver_skips_instances_and_defaults_names:
  "map uniqueId (filter (\<lambda>m. mesh_name m \<noteq> ''__root__'') instancedMeshes) = [2, 3, 5] \<and>
   map (\<lambda>m. asciiToLowerCase (mesh_name m)) (filter (\<lambda>m. mesh_name m \<noteq> ''__root__'') instancedMeshes) =
     [''wheel'', ''wheel'', ''mesh''] \<and>
   map (\<lambda>n. asciiToLowerCase (node_name n))
       (filter (\<lambda>n. node_parentId n = Some (node_id carModel) \<and> node_kind n = ''mesh'') instancedGraph) =
     [''wheel'', ''wheel'', []] \<and>
   spec_key [''wheel'', ''wheel'', ''mesh''] 1 = spec_key [''wheel'', ''wheel'', []] 1 \<and>
   spec_key [''wheel'', ''wheel'', ''mesh''] 2 \<notin> set (map (spec_key [''wheel'', ''wheel'', []]) [0, 1, 2]) \<and>
   map (\<lambda>m. (mesh_name m, uniqueId m, map_option stableId (mesh_metadata m), isDisposed m))
       (fst (resolveIdentities exampleEngine instancedGraph carModel instancedMeshes)) =
     [(''Wheel'', 2, Some (Some ''t0''), False), (''Mesh'', 5, Some (Some ''t2''), False)] \<and>
   map uniqueId (snd (resolveIdentities exampleEngine instancedGraph carModel instancedMeshes)) = [2, 5]"
proof -
  have 1: "map uniqueId (filter (\<lambda>m. mesh_name m \<noteq> ''__root__'') instancedMeshes) = [2, 3, 5]"
    by (simp add: instancedMeshes_def instancedWheel_def loadedMesh_def)
  have 2: "map (\<lambda>m. asciiToLowerCase (mesh_name m)) (filter (\<lambda>m. mesh_name m \<noteq> ''__root__'') instancedMeshes) =
     [''wheel'', ''wheel'', ''mesh'']"
    by (simp add: instancedMeshes_def instancedWheel_def loadedMesh_def asciiToLowerCase_def lowerChar_def)
  have 3: "map (\<lambda>n. asciiToLowerCase (node_name n))
       (filter (\<lambda>n. node_parentId n = Some (node_id carModel) \<and> node_kind n = ''mesh'') instancedGraph) =
     [''wheel'', ''wheel'', []]"
    by (simp add: instancedGraph_def namelessNode_def wheelNode_def carModel_def asciiToLowerCase_def lowerChar_def)
  have 4: "spec_key [''wheel'', ''wheel'', ''mesh''] 1 = spec_key [''wheel'', ''wheel'', []] 1"
    by (simp add: spec_key_def spec_occurrenceIndex_def numberToString.simps digitChar_def)
  have 5: "spec_key [''wheel'', ''wheel'', ''mesh''] 2 \<notin> set (map (spec_key [''wheel'', ''wheel'', []]) [0, 1, 2])"
    by (simp add: spec_key_def spec_occurrenceIndex_def numberToString.simps digitChar_def)
  have 6: "map (\<lambda>m. (mesh_name m, uniqueId m, map_option stableId (mesh_metadata m), isDisposed m))
       (fst (resolveIdentities exampleEngine instancedGraph carModel instancedMeshes)) =
     [(''Wheel'', 2, Some (Some ''t0''), False), (''Mesh'', 5, Some (Some ''t2''), False)]"
    by (simp add: instanced_eval stampMesh_explicit loadedMesh_def)
  have 7: "map uniqueId (snd (resolveIdentities exampleEngine instancedGraph carModel instancedMeshes)) = [2, 5]"
    by (simp add: instanced_eval stampMesh_explicit loadedMesh_def)
  show ?thesis by (rule conjI[OF 1 conjI[OF 2 conjI[OF 3 conjI[OF 4 conjI[OF 5 conjI[OF 6 7]]]]]])
qed

section \<open>Properties of the camera\<close>

lemma orNumber_nonzero: "d \<noteq> 0 \<Longrightarrow> orNumber x d \<noteq> 0"
  by (simp add: orNumber_def split: option.splits)

lemma orNumber_zero: "orNumber (Some 0) d = d"
  by (simp add: orNumber_def)

text \<open>
  Claim C10. For an ArcRotate camera a saved \<open>alpha\<close>, \<open>beta\<close> or \<open>radius\<close> of exactly
  0 is replaced by the default (\<open>-pi/2\<close>, \<open>pi/2.5\<close>, the length of the node position or
  15), so none of the three is ever 0 on the camera; a saved \<open>minZ\<close> or \<open>maxZ\<close> of 0 is
  kept.
\<close>

theorem arcRotate_zero_falls_back_to_default:
  assumes "camType (cameraPropsOf node) \<noteq> Some ''Universal''"
  shows "(alpha (cameraPropsOf node) = Some 0 \<longrightarrow>
            cb_alpha (cam_body (createCamera node)) = - pi / 2) \<and>
         (beta (cameraPropsOf node) = Some 0 \<longrightarrow>
            cb_beta (cam_body (createCamera node)) = pi / 2.5) \<and>
         (radius (cameraPropsOf node) = Some 0 \<longrightarrow>
            cb_radius (cam_body (createCamera node)) =
              (if vecLength (nodePosition node) \<noteq> 0 then vecLength (nodePosition node) else 15)) \<and>
         cb_alpha (cam_body (createCamera node)) \<noteq> 0 \<and>
         cb_beta (cam_body (createCamera node)) \<noteq> 0 \<and>
         cb_radius (cam_body (createCamera node)) \<noteq> 0 \<and>
         (minZ (cameraPropsOf node) = Some 0 \<longrightarrow> cam_minZ (createCamera node) = 0) \<and>
         (maxZ (cameraPropsOf node) = Some 0 \<longrightarrow> cam_maxZ (createCamera node) = 0)"
proof -
  have a: "cb_alpha (cam_body (createCamera node)) = orNumber (alpha (cameraPropsOf node)) (- pi / 2)"
    using assms by (simp add: createCamera_def Let_def)
  have b: "cb_beta (cam_body (createCamera node)) = orNumber (beta (cameraPropsOf node)) (pi / 2.5)"
    using assms by (simp add: createCamera_def Let_def)
  have r: "cb_radius (cam_body (createCamera node)) =
             orNumber (Some (orNumber (radius (cameraPropsOf node)) (vecLength (nodePosition node)))) 15"
    using assms by (simp add: createCamera_def Let_def)
  have p: "- pi / 2 \<noteq> 0" "pi / 2.5 \<noteq> 0" by simp_all
  have 1: "alpha (cameraPropsOf node) = Some 0 \<longrightarrow> cb_alpha (cam_body (createCamera node)) = - pi / 2"
    by (simp add: a orNumber_zero)
  have 2: "beta (cameraPropsOf node) = Some 0 \<longrightarrow> cb_beta (cam_body (createCamera node)) = pi / 2.5"
    by (simp add: b orNumber_zero)
  have 3: "radius (cameraPropsOf node) = Some 0 \<longrightarrow>
            cb_radius (cam_body (createCamera node)) =
              (if vecLength (nodePosition node) \<noteq> 0 then vecLength (nodePosition node) else 15)"
    by (simp add: r orNumber_def)
  have 4: "cb_alpha (cam_body (createCamera node)) \<noteq> 0"
    unfolding a by (rule orNumber_nonzero[OF p(1)])
  have 5: "cb_beta (cam_body (createCamera node)) \<noteq> 0"
    unfolding b by (rule orNumber_nonzero[OF p(2)])
  have 6: "cb_radius (cam_body (createCamera node)) \<noteq> 0"
    unfolding r by (rule orNumber_nonzero) simp
  have 7: "minZ (cameraPropsOf node) = Some 0 \<longrightarrow> cam_minZ (createCamera node) = 0"
    by (simp add: createCamera_def Let_def)
  have 8: "maxZ (cameraPropsOf node) = Some 0 \<longrightarrow> cam_maxZ (createCamera node) = 0"
    by (simp add: createCamera_def Let_def)
  from 1 2 3 4 5 6 7 8 show ?thesis by (intro conjI)
qed

theorem arcRotate_zero_falls_back_to_default_example:
  "camType (cameraPropsOf zeroCameraNode) \<noteq> Some ''Universal'' \<and>
   alpha (cameraPropsOf zeroCameraNode) = Some 0 \<and>
   beta (cameraPropsOf zeroCameraNode) = Some 0 \<and>
   radius (cameraPropsOf zeroCameraNode) = Some 0 \<and>
   minZ (cameraPropsOf zeroCameraNode) = Some 0 \<and>
   maxZ (cameraPropsOf zeroCameraNode) = Some 0 \<and>
   cb_alpha (cam_body (createCamera zeroCameraNode)) = - pi / 2 \<and>
   cb_beta (cam_body (createCamera zeroCameraNode)) = pi / 2.5 \<and>
   cb_radius (cam_body (createCamera zeroCameraNode)) = 15 \<and>
   cam_minZ (createCamera zeroCameraNode) = 0 \<and>
   cam_maxZ (createCamera zeroCameraNode) = 0"
proof -
  have t: "camType (cameraPropsOf zeroCameraNode) \<noteq> Some ''Universal''"
    by (simp add: cameraPropsOf_def zeroCameraNode_def)
  have z: "alpha (cameraPropsOf zeroCameraNode) = Some 0"
      "beta (cameraPropsOf zeroCameraNode) = Some 0"
      "radius (cameraPropsOf zeroCameraNode) = Some 0"
      "minZ (cameraPropsOf zeroCameraNode) = Some 0"
      "maxZ (cameraPropsOf zeroCameraNode) = Some 0"
    by (simp_all add: cameraPropsOf_def zeroCameraNode_def)
  have v: "vecLength (nodePosition zeroCameraNode) = 0"
    by (simp add: vecLength_def nodePosition_def zeroCameraNode_def exampleTransform_def)
  note T = arcRotate_zero_falls_back_to_default[OF t]
  have 1: "cb_alpha (cam_body (createCamera zeroCameraNode)) = - pi / 2"
    by (rule T[THEN conjunct1, THEN mp, OF z(1)])
  have 2: "cb_beta (cam_body (createCamera zeroCameraNode)) = pi / 2.5"
    by (rule T[THEN conjunct2, THEN conjunct1, THEN mp, OF z(2)])
  have 3: "cb_radius (cam_body (createCamera zeroCameraNode)) = 15"
    using T[THEN conjunct2, THEN conjunct2, THEN conjunct1, THEN mp, OF z(3)] v by simp
  have 4: "cam_minZ (createCamera zeroCameraNode) = 0"
    by (rule T[THEN conjunct2, THEN conjunct2, THEN conjunct2, THEN conjunct2, THEN conjunct2,
               THEN conjunct2, THEN conjunct1, THEN mp, OF z(4)])
  have 5: "cam_maxZ (createCamera zeroCameraNode) = 0"
    by (rule T[THEN conjunct2, THEN conjunct2, THEN conjunct2, THEN conjunct2, THEN conjunct2,
               THEN conjunct2, THEN conjunct2, THEN mp, OF z(5)])
  from t z 1 2 3 4 5 show ?thesis by (intro conjI)
qed

section \<open>Properties of the material overrides\<close>














lemma applied_result:
  assumes "applyTextureOverride eng mat property val = (mat', AppliedTexture)"
  shows "\<exists>tex. loadTextureFromAssetPath eng val = Some tex \<and>
           mat' = mat\<lparr>slots := (slots mat)(property \<mapsto>
                    (case slots mat property of Some orig \<Rightarrow> copyUVProperties orig tex
                                              | None \<Rightarrow> defaultUVChannel property tex))\<rparr>"
  using assms
  by (auto simp: applyTextureOverride_def Let_def split: if_splits option.splits)

lemma loaded_texture:
  assumes "loadTextureFromAssetPath eng val = Some tex"
  shows "tex = (newTexture eng (''assets/'' @ toRelativeAssetPath val))
                 \<lparr>tex_name := last (split_str CHR ''/'' (''assets/'' @ toRelativeAssetPath val))\<rparr>"
  using assms by (auto simp: loadTextureFromAssetPath_def Let_def split: if_splits)

text \<open>
  Claim C4. When an override is applied, the slot holds the texture that was loaded from
  the override's value, with the same URL and name. When the slot held a texture before,
  the new texture has the original's coordinate-set index, U/V offset, U/V scale, U/V/W
  angles and U/V wrap modes, each where the original carries the property (and its own
  value where the original carries none); when the slot was empty, the coordinate-set
  index is 1 for \<open>ambientTexture\<close> and \<open>lightmapTexture\<close> and 0 for every other
  property, and the other nine properties are the loaded texture's own.
\<close>

theorem applied_override_preserves_uv:
  assumes "applyTextureOverride eng mat property val = (mat', AppliedTexture)"
  shows "\<exists>tex tex'.
           loadTextureFromAssetPath eng val = Some tex \<and>
           tex = (newTexture eng (''assets/'' @ toRelativeAssetPath val))
                   \<lparr>tex_name := last (split_str CHR ''/'' (''assets/'' @ toRelativeAssetPath val))\<rparr> \<and>
           mat' = mat\<lparr>slots := (slots mat)(property \<mapsto> tex')\<rparr> \<and>
           slots mat' property = Some tex' \<and>
           tex_url tex' = tex_url tex \<and>
           tex_name tex' = tex_name tex \<and>
           (\<forall>orig. slots mat property = Some orig \<longrightarrow>
              coordinatesIndex tex' = (case coordinatesIndex orig of Some v \<Rightarrow> Some v | None \<Rightarrow> coordinatesIndex tex) \<and>
              uOffset tex' = (case uOffset orig of Some v \<Rightarrow> Some v | None \<Rightarrow> uOffset tex) \<and>
              vOffset tex' = (case vOffset orig of Some v \<Rightarrow> Some v | None \<Rightarrow> vOffset tex) \<and>
              uScale tex' = (case uScale orig of Some v \<Rightarrow> Some v | None \<Rightarrow> uScale tex) \<and>
              vScale tex' = (case vScale orig of Some v \<Rightarrow> Some v | None \<Rightarrow> vScale tex) \<and>
              uAng tex' = (case uAng orig of Some v \<Rightarrow> Some v | None \<Rightarrow> uAng tex) \<and>
              vAng tex' = (case vAng orig of Some v \<Rightarrow> Some v | None \<Rightarrow> vAng tex) \<and>
              wAng tex' = (case wAng orig of Some v \<Rightarrow> Some v | None \<Rightarrow> wAng tex) \<and>
              wrapU tex' = (case wrapU orig of Some v \<Rightarrow> Some v | None \<Rightarrow> wrapU tex) \<and>
              wrapV tex' = (case wrapV orig of Some v \<Rightarrow> Some v | None \<Rightarrow> wrapV tex)) \<and>
           (slots mat property = None \<longrightarrow>
              coordinatesIndex tex' =
                Some (if property = ''ambientTexture'' \<or> property = ''lightmapTexture'' then 1 else 0) \<and>
              uOffset tex' = uOffset tex \<and>
              vOffset tex' = vOffset tex \<and>
              uScale tex' = uScale tex \<and>
              vScale tex' = vScale tex \<and>
              uAng tex' = uAng tex \<and>
              vAng tex' = vAng tex \<and>
              wAng tex' = wAng tex \<and>
              wrapU tex' = wrapU tex \<and>
              wrapV tex' = wrapV tex)"
proof -
  from applied_result[OF assms] obtain tex where
    l: "loadTextureFromAssetPath eng val = Some tex" and
    m: "mat' = mat\<lparr>slots := (slots mat)(property \<mapsto>
                    (case slots mat property of Some orig \<Rightarrow> copyUVProperties orig tex
                                              | None \<Rightarrow> defaultUVChannel property tex))\<rparr>"
    by (elim exE conjE)
  define tex' where "tex' = (case slots mat property of Some orig \<Rightarrow> copyUVProperties orig tex
                                              | None \<Rightarrow> defaultUVChannel property tex)"
  have t: "tex = (newTexture eng (''assets/'' @ toRelativeAssetPath val))
                   \<lparr>tex_name := last (split_str CHR ''/'' (''assets/'' @ toRelativeAssetPath val))\<rparr>"
    by (rule loaded_texture[OF l])
  have m': "mat' = mat\<lparr>slots := (slots mat)(property \<mapsto> tex')\<rparr>"
    unfolding tex'_def by (rule m)
  have s: "slots mat' property = Some tex'" by (simp add: m')
  have u: "tex_url tex' = tex_url tex"
    by (cases "slots mat property") (simp_all add: tex'_def copyUVProperties_def defaultUVChannel_def)
  have n: "tex_name tex' = tex_name tex"
    by (cases "slots mat property") (simp_all add: tex'_def copyUVProperties_def defaultUVChannel_def)
  have o: "\<forall>orig. slots mat property = Some orig \<longrightarrow>
              coordinatesIndex tex' = (case coordinatesIndex orig of Some v \<Rightarrow> Some v | None \<Rightarrow> coordinatesIndex tex) \<and>
              uOffset tex' = (case uOffset orig of Some v \<Rightarrow> Some v | None \<Rightarrow> uOffset tex) \<and>
              vOffset tex' = (case vOffset orig of Some v \<Rightarrow> Some v | None \<Rightarrow> vOffset tex) \<and>
              uScale tex' = (case uScale orig of Some v \<Rightarrow> Some v | None \<Rightarrow> uScale tex) \<and>
              vScale tex' = (case vScale orig of Some v \<Rightarrow> Some v | None \<Rightarrow> vScale tex) \<and>
              uAng tex' = (case uAng orig of Some v \<Rightarrow> Some v | None \<Rightarrow> uAng tex) \<and>
              vAng tex' = (case vAng orig of Some v \<Rightarrow> Some v | None \<Rightarrow> vAng tex) \<and>
              wAng tex' = (case wAng orig of Some v \<Rightarrow> Some v | None \<Rightarrow> wAng tex) \<and>
              wrapU tex' = (case wrapU orig of Some v \<Rightarrow> Some v | None \<Rightarrow> wrapU tex) \<and>
              wrapV tex' = (case wrapV orig of Some v \<Rightarrow> Some v | None \<Rightarrow> wrapV tex)"
    by (intro allI impI) (simp add: tex'_def copyUVProperties_def copyIfPresent_def)
  have d: "slots mat property = None \<longrightarrow>
              coordinatesIndex tex' =
                Some (if property = ''ambientTexture'' \<or> property = ''lightmapTexture'' then 1 else 0) \<and>
              uOffset tex' = uOffset tex \<and>
              vOffset tex' = vOffset tex \<and>
              uScale tex' = uScale tex \<and>
              vScale tex' = vScale tex \<and>
              uAng tex' = uAng tex \<and>
              vAng tex' = vAng tex \<and>
              wAng tex' = wAng tex \<and>
              wrapU tex' = wrapU tex \<and>
              wrapV tex' = wrapV tex"
    by (rule impI) (simp add: tex'_def defaultUVChannel_def)
  show ?thesis
    by (rule exI[of _ tex], rule exI[of _ tex'])
       (rule conjI[OF l conjI[OF t conjI[OF m' conjI[OF s conjI[OF u conjI[OF n conjI[OF o d]]]]]]])
qed

lemma red_applied:
  "applyTextureOverride exampleEngine (carPaint (Some blueTexture)) ''albedoTexture''
      ''u1/projects/p1/assets/red.png'' =
     ((carPaint (Some blueTexture))\<lparr>slots := (slots (carPaint (Some blueTexture)))
         (''albedoTexture'' \<mapsto> copyUVProperties blueTexture
            ((blankTexture ''assets/red.png'')\<lparr>tex_name := ''red.png''\<rparr>))\<rparr>,
      AppliedTexture)"
  by (simp add: applyTextureOverride_def shouldApplyOverride_def Let_def carPaint_def
        blueTexture_def currentPathOf_def orString_def isEmbeddedTexture_def includes_str_def
        getFilenameFromUrl_def firstPart_def matchUuidPrefix_def
        loadTextureFromAssetPath_def toRelativeAssetPath_def exampleEngine_def)

theorem applied_override_preserves_uv_example:
  "applyTextureOverride exampleEngine (carPaint (Some blueTexture)) ''albedoTexture''
      ''u1/projects/p1/assets/red.png'' =
     ((carPaint (Some blueTexture))\<lparr>slots := (slots (carPaint (Some blueTexture)))
         (''albedoTexture'' \<mapsto> copyUVProperties blueTexture
            ((blankTexture ''assets/red.png'')\<lparr>tex_name := ''red.png''\<rparr>))\<rparr>,
      AppliedTexture) \<and>
   tex_url (copyUVProperties blueTexture
            ((blankTexture ''assets/red.png'')\<lparr>tex_name := ''red.png''\<rparr>)) = Some ''assets/red.png'' \<and>
   tex_name (copyUVProperties blueTexture
            ((blankTexture ''assets/red.png'')\<lparr>tex_name := ''red.png''\<rparr>)) = ''red.png'' \<and>
   coordinatesIndex (copyUVProperties blueTexture
            ((blankTexture ''assets/red.png'')\<lparr>tex_name := ''red.png''\<rparr>)) = Some 1 \<and>
   uOffset (copyUVProperties blueTexture
            ((blankTexture ''assets/red.png'')\<lparr>tex_name := ''red.png''\<rparr>)) = Some 0.5 \<and>
   wrapV (copyUVProperties blueTexture
            ((blankTexture ''assets/red.png'')\<lparr>tex_name := ''red.png''\<rparr>)) = Some 2"
proof -
  let ?new = "copyUVProperties blueTexture ((blankTexture ''assets/red.png'')\<lparr>tex_name := ''red.png''\<rparr>)"
  let ?val = "''u1/projects/p1/assets/red.png''"
  note E = red_applied
  have o: "slots (carPaint (Some blueTexture)) ''albedoTexture'' = Some blueTexture"
    by (simp add: carPaint_def)
  have b: "coordinatesIndex blueTexture = Some 1" "uOffset blueTexture = Some 0.5"
    "wrapV blueTexture = Some 2"
    by (simp_all add: blueTexture_def)
  have rel: "toRelativeAssetPath ?val = ''red.png''"
    by (simp add: toRelativeAssetPath_def)
  have "tex_url ?new = Some ''assets/red.png'' \<and> tex_name ?new = ''red.png'' \<and>
        coordinatesIndex ?new = Some 1 \<and> uOffset ?new = Some 0.5 \<and> wrapV ?new = Some 2"
    using applied_override_preserves_uv[OF E]
  proof (elim exE conjE)
    fix tex tex'
    assume t: "tex = (newTexture exampleEngine (''assets/'' @ toRelativeAssetPath ?val))
                   \<lparr>tex_name := last (split_str CHR ''/'' (''assets/'' @ toRelativeAssetPath ?val))\<rparr>"
      and s: "slots ((carPaint (Some blueTexture))\<lparr>slots := (slots (carPaint (Some blueTexture)))
                (''albedoTexture'' \<mapsto> ?new)\<rparr>) ''albedoTexture'' = Some tex'"
      and u: "tex_url tex' = tex_url tex"
      and n: "tex_name tex' = tex_name tex"
      and c: "\<forall>orig. slots (carPaint (Some blueTexture)) ''albedoTexture'' = Some orig \<longrightarrow>
              coordinatesIndex tex' = (case coordinatesIndex orig of Some v \<Rightarrow> Some v | None \<Rightarrow> coordinatesIndex tex) \<and>
              uOffset tex' = (case uOffset orig of Some v \<Rightarrow> Some v | None \<Rightarrow> uOffset tex) \<and>
              vOffset tex' = (case vOffset orig of Some v \<Rightarrow> Some v | None \<Rightarrow> vOffset tex) \<and>
              uScale tex' = (case uScale orig of Some v \<Rightarrow> Some v | None \<Rightarrow> uScale tex) \<and>
              vScale tex' = (case vScale orig of Some v \<Rightarrow> Some v | None \<Rightarrow> vScale tex) \<and>
              uAng tex' = (case uAng orig of Some v \<Rightarrow> Some v | None \<Rightarrow> uAng tex) \<and>
              vAng tex' = (case vAng orig of Some v \<Rightarrow> Some v | None \<Rightarrow> vAng tex) \<and>
              wAng tex' = (case wAng orig of Some v \<Rightarrow> Some v | None \<Rightarrow> wAng tex) \<and>
              wrapU tex' = (case wrapU orig of Some v \<Rightarrow> Some v | None \<Rightarrow> wrapU tex) \<and>
              wrapV tex' = (case wrapV orig of Some v \<Rightarrow> Some v | None \<Rightarrow> wrapV tex)"
    from s have e: "tex' = ?new" by simp
    have tu: "tex_url tex = Some ''assets/red.png''" and tn: "tex_name tex = ''red.png''"
      unfolding t rel by (simp_all add: exampleEngine_def blankTexture_def)
    note f = c[THEN spec, THEN mp, OF o, unfolded e b]
    have 1: "tex_url ?new = Some ''assets/red.png''" using u tu unfolding e by simp
    have 2: "tex_name ?new = ''red.png''" using n tn unfolding e by simp
    have 3: "coordinatesIndex ?new = Some 1"
      using f[THEN conjunct1] by simp
    have 4: "uOffset ?new = Some 0.5"
      using f[THEN conjunct2, THEN conjunct1] by simp
    have 5: "wrapV ?new = Some 2"
      using f[THEN conjunct2, THEN conjunct2, THEN conjunct2, THEN conjunct2, THEN conjunct2,
              THEN conjunct2, THEN conjunct2, THEN conjunct2, THEN conjunct2] by simp
    show ?thesis by (rule conjI[OF 1 conjI[OF 2 conjI[OF 3 conjI[OF 4 5]]]])
  qed
  then show ?thesis by (rule conjI[OF E])
qed

section \<open>Properties of the two passes\<close>

lemma firstPass_fold:
  "firstPass eng graph nodes sc acc =
     (foldl (\<lambda>s n. instantiateNode eng graph n s) sc (filter (\<lambda>n. \<not> isDeferredChild n) nodes),
      acc @ filter isDeferredChild nodes)"
  by (induction nodes arbitrary: sc acc) simp_all


























lemma hidden_resolve:
  "resolveIdentities exampleEngine hiddenGraph hiddenCarModel
      (map (\<lambda>m. m\<lparr>mesh_parent := Some ''car''\<rparr>) exampleMeshes) =
     ([stampMesh (wheelNode ''t0'') ''t0'' False True ((loadedMesh ''Wheel'' 2)\<lparr>mesh_parent := Some ''car''\<rparr>),
       stampMesh (wheelNode ''t1'') ''t1'' False True ((loadedMesh ''Wheel'' 3)\<lparr>mesh_parent := Some ''car''\<rparr>),
       disposeMesh ((loadedMesh ''Door'' 4)\<lparr>mesh_parent := Some ''car''\<rparr>)],
      [stampMesh (wheelNode ''t0'') ''t0'' False True ((loadedMesh ''Wheel'' 2)\<lparr>mesh_parent := Some ''car''\<rparr>),
       stampMesh (wheelNode ''t1'') ''t1'' False True ((loadedMesh ''Wheel'' 3)\<lparr>mesh_parent := Some ''car''\<rparr>)])"
  by (simp add: resolveIdentities_def hiddenGraph_def hiddenCarModel_def exampleMeshes_def carModel_def
        wheelNode_def loadedMesh_def childNodesOf_def actualMeshesOf_def childKeyName_def
        meshKeyName_def asciiToLowerCase_def lowerChar_def exampleEngine_def orString_def childToken_def
        getChildTokenFromId_def MESH_TAG_def numberToString.simps digitChar_def Let_def)

lemma hidden_load:
  "loadModelFromAssets exampleEngine hiddenGraph hiddenCarModel emptyScene =
     emptyScene\<lparr>meshes :=
        [stampMesh (wheelNode ''t0'') ''t0'' False True ((loadedMesh ''Wheel'' 2)\<lparr>mesh_parent := Some ''car''\<rparr>),
         stampMesh (wheelNode ''t1'') ''t1'' False True ((loadedMesh ''Wheel'' 3)\<lparr>mesh_parent := Some ''car''\<rparr>)],
       transformNodes := [\<lparr>tn_id = ''car'', tn_position = (0, 0, 0), tn_rotation = (0, 0, 0),
                           tn_scaling = (1, 1, 1)\<rparr>]\<rparr>"
proof -
  have src: "node_src hiddenCarModel = Some ''u1/projects/p1/assets/car.gltf''"
    by (simp add: hiddenCarModel_def carModel_def)
  have ld: "loadContainerFor exampleEngine ''u1/projects/p1/assets/car.gltf'' = Some exampleMeshes"
    by (simp add: loadContainerFor_def exampleEngine_def Let_def)
  have len: "exampleMeshes \<noteq> []" by (simp add: exampleMeshes_def)
  have idn: "node_id hiddenCarModel = ''car''" by (simp add: hiddenCarModel_def carModel_def)
  have tr: "nodePosition hiddenCarModel = (0, 0, 0)" "nodeRotation hiddenCarModel = (0, 0, 0)"
    "nodeScaling hiddenCarModel = (1, 1, 1)"
    by (simp_all add: nodePosition_def nodeRotation_def nodeScaling_def hiddenCarModel_def
          carModel_def exampleTransform_def)
  show ?thesis
    unfolding loadModelFromAssets_def src
    by (simp add: ld len idn tr hidden_resolve Let_def emptyScene_def)
qed

lemma hidden_deferred:
  "\<not> isDeferredChild hiddenCarModel" "isDeferredChild (wheelNode ''t0'')" "isDeferredChild (wheelNode ''t1'')"
  by (simp_all add: isDeferredChild_def isChildMeshId_def hasParentId_def includes_str_def
        hiddenCarModel_def carModel_def wheelNode_def)

lemma hidden_first:
  "firstPass exampleEngine hiddenGraph hiddenGraph emptyScene [] =
     (loadModelFromAssets exampleEngine hiddenGraph hiddenCarModel emptyScene,
      [wheelNode ''t0'', wheelNode ''t1''])"
proof -
  have k: "node_kind hiddenCarModel = ''model''" "node_src hiddenCarModel = Some ''u1/projects/p1/assets/car.gltf''"
    by (simp_all add: hiddenCarModel_def carModel_def)
  have "instantiateNode exampleEngine hiddenGraph hiddenCarModel emptyScene =
          loadModelFromAssets exampleEngine hiddenGraph hiddenCarModel emptyScene"
    by (simp add: instantiateNode_def k)
  then show ?thesis
    by (simp add: firstPass_fold hiddenGraph_def hidden_deferred)
qed

lemma wheel_token:
  "getChildTokenFromId (node_id (wheelNode ''t0'')) = Some ''t0''"
  "getChildTokenFromId (node_id (wheelNode ''t1'')) = Some ''t1''"
  by (simp_all add: getChildTokenFromId_def MESH_TAG_def wheelNode_def)

lemma stamped_visibility:
  "visibility (stampMesh cn tok pv pe m) =
     (if node_visible cn \<noteq> Some False \<and> node_enabled cn \<noteq> Some False \<and> pv \<and> pe then 1 else 0)"
  by (simp add: stampMesh_def Let_def)

lemma node_visibility:
  "visibility (applyNodeVisibility n m) =
     (if node_visible n \<noteq> Some False \<and> node_enabled n \<noteq> Some False then 1 else 0)"
  by (simp add: applyNodeVisibility_def Let_def)

lemma find_stamped:
  "hasStableId tok (stampMesh cn tok pv pe m)"
  by (rule hasStableId_stampMesh)

lemma not_stamped_other:
  "tok \<noteq> tok' \<Longrightarrow> \<not> hasStableId tok' (stampMesh cn tok pv pe m)"
  by (simp add: hasStableId_def stampMesh_def setStableId_def ensureMetadata_def Let_def
      split: option.splits)

lemma hasStableId_after_node:
  "hasStableId tok (applyNodeVisibility n (applyChildTransform n m)) = hasStableId tok m"
  by (simp add: hasStableId_def applyNodeVisibility_def applyChildTransform_def Let_def
      split: prod.splits)

lemma child_step:
  assumes "node_kind n = ''mesh''" "isChildMeshId n" "getChildTokenFromId (node_id n) = Some tok"
    "tok \<noteq> []" "findChildMesh eng tok (meshes sc) = Some i"
  shows "meshes (instantiateNode eng graph n sc) =
           (meshes sc)[i := applyNodeVisibility n (applyChildTransform n (meshes sc ! i))]"
  using assms by (simp add: instantiateNode_def instantiateMesh_def)

text \<open>
  Claim C5, evaluated where the code departs from it. The model node is hidden
  (\<open>visible = false\<close>) and its two saved children are not. After the first pass both
  child meshes have visibility 0, the conjunction with the parent's flags. The second
  pass finds each mesh by its token and sets the visibility again from the child's own
  flags alone: both end with visibility 1.
\<close>

theorem hidden_model_children_end_visible:
  "node_visible hiddenCarModel = Some False \<and>
   map visibility (meshes (fst (firstPass exampleEngine hiddenGraph hiddenGraph emptyScene []))) = [0, 0] \<and>
   map (hasStableId ''t0'') (meshes (instantiateGraph exampleEngine hiddenGraph emptyScene)) = [True, False] \<and>
   map (hasStableId ''t1'') (meshes (instantiateGraph exampleEngine hiddenGraph emptyScene)) = [False, True] \<and>
   map visibility (meshes (instantiateGraph exampleEngine hiddenGraph emptyScene)) = [1, 1]"
proof -
  let ?w0 = "stampMesh (wheelNode ''t0'') ''t0'' False True ((loadedMesh ''Wheel'' 2)\<lparr>mesh_parent := Some ''car''\<rparr>)"
  let ?w1 = "stampMesh (wheelNode ''t1'') ''t1'' False True ((loadedMesh ''Wheel'' 3)\<lparr>mesh_parent := Some ''car''\<rparr>)"
  let ?sc1 = "loadModelFromAssets exampleEngine hiddenGraph hiddenCarModel emptyScene"
  have v: "node_visible hiddenCarModel = Some False" by (simp add: hiddenCarModel_def)
  have m1: "meshes ?sc1 = [?w0, ?w1]" by (simp add: hidden_load)
  have p1: "map visibility (meshes (fst (firstPass exampleEngine hiddenGraph hiddenGraph emptyScene []))) = [0, 0]"
    by (simp add: hidden_first m1 stamped_visibility)
  have ch: "isChildMeshId (wheelNode ''t0'')" "isChildMeshId (wheelNode ''t1'')"
      "node_kind (wheelNode ''t0'') = ''mesh''" "node_kind (wheelNode ''t1'') = ''mesh''"
    using hidden_deferred by (simp_all add: isDeferredChild_def)
  have f0: "findChildMesh exampleEngine ''t0'' [?w0, ?w1] = Some 0"
    by (simp add: findChildMesh_def find_stamped)
  let ?w0' = "applyNodeVisibility (wheelNode ''t0'') (applyChildTransform (wheelNode ''t0'') ?w0)"
  let ?w1' = "applyNodeVisibility (wheelNode ''t1'') (applyChildTransform (wheelNode ''t1'') ?w1)"
  define sc2 where "sc2 = instantiateNode exampleEngine hiddenGraph (wheelNode ''t0'') ?sc1"
  have s2: "meshes sc2 = [?w0', ?w1]"
    unfolding sc2_def
    using child_step[where i=0 and sc="?sc1" and eng=exampleEngine and graph=hiddenGraph,
            OF ch(3) ch(1) wheel_token(1)] f0 m1
    by simp
  have f1: "findChildMesh exampleEngine ''t1'' [?w0', ?w1] = Some 1"
    by (simp add: findChildMesh_def find_stamped not_stamped_other hasStableId_after_node)
  have s3: "meshes (instantiateNode exampleEngine hiddenGraph (wheelNode ''t1'') sc2) = [?w0', ?w1']"
    using child_step[where i=1 and sc=sc2 and eng=exampleEngine and graph=hiddenGraph,
            OF ch(4) ch(2) wheel_token(2)] f1 s2
    by simp
  have g: "instantiateGraph exampleEngine hiddenGraph emptyScene =
             instantiateNode exampleEngine hiddenGraph (wheelNode ''t1'') sc2"
    by (simp add: instantiateGraph_def hidden_first sc2_def)
  have wv: "node_visible (wheelNode ''t0'') = None" "node_enabled (wheelNode ''t0'') = None"
     "node_visible (wheelNode ''t1'') = None" "node_enabled (wheelNode ''t1'') = None"
    by (simp_all add: wheelNode_def)
  have p2: "map (hasStableId ''t0'') (meshes (instantiateGraph exampleEngine hiddenGraph emptyScene)) = [True, False]"
    by (simp add: g s3 hasStableId_after_node find_stamped not_stamped_other)
  have p3: "map (hasStableId ''t1'') (meshes (instantiateGraph exampleEngine hiddenGraph emptyScene)) = [False, True]"
    by (simp add: g s3 hasStableId_after_node find_stamped not_stamped_other)
  have p4: "map visibility (meshes (instantiateGraph exampleEngine hiddenGraph emptyScene)) = [1, 1]"
    by (simp add: g s3 node_visibility wv)
  show ?thesis by (rule conjI[OF v conjI[OF p1 conjI[OF p2 conjI[OF p3 p4]]]])
qed

end
